theory Spec2Isabelle
  imports
    Main
    "HOL-Library.AList"
    "HOL-Library.Char_ord"
    "HOL-Library.List_Lexorder"
    "HOL-Library.Multiset"
begin

section \<open>The data model of mmaria\_simone\_webapp.py\<close>

text \<open>
  The program mirrors one incoming PNG per station into a \<open>current\<close> file, archives it
  under a directory named after the UTC day of its modification time, keeps one catalog
  row per (station key, day) in the SQLite table \<open>archive_images\<close>, drains the
  \<open>old incoming\<close> directories and answers searches over the catalog.

  Paths are lists of components below \<open>DATA_DIR\<close>. Station keys and file names are
  single components, as every entry of \<open>STATIONS\<close> is, so \<open>dir / name\<close> appends one
  component. Names that start with an underscore in the source lose it here.
\<close>

type_synonym path = "string list"

text \<open>
  The exceptions the model can raise: a missing file at \<open>stat\<close> or \<open>copy2\<close>, an
  unreadable source or a source that is its own destination at \<open>copy2\<close>, a timestamp
  outside the years of \<open>datetime\<close>, a date string that does not split in three, an
  \<open>INSERT\<close> or \<open>SELECT\<close> on a database without the table, and \<open>list.extend(None)\<close>.
\<close>

datatype error =
  FileNotFoundError
  | PermissionError
  | SameFileError
  | ValueError
  | OperationalError
  | TypeError

text \<open>
  A regular file: \<open>st_mtime\<close> in whole seconds since the epoch (the source reads a
  float; its fraction is not modelled), the bytes, and whether the process may read it.
\<close>

record regular_file =
  mtime :: int
  content :: string
  readable :: bool

text \<open>An entry of \<open>STATIONS\<close>.\<close>

record station_cfg =
  key :: string
  project :: string
  country :: string
  station :: string
  map_embed :: string
  incoming_filename :: string

text \<open>
  A row of \<open>archive_images\<close>. The surrogate column \<open>id\<close> is never read by the program
  and is left out; rows are kept in insertion order. The columns \<open>country\<close> and
  \<open>station\<close> are \<open>row_country\<close> and \<open>row_station\<close> here.
\<close>

record archive_row =
  image_name :: string
  row_country :: string
  row_station :: string
  date :: string
  station_key :: string
  file_path :: string

text \<open>The dictionary \<open>_archive_file\<close> returns (keys \<open>key\<close>, \<open>date\<close>, \<open>archive\<close>).\<close>

record info =
  info_key :: string
  info_date :: string
  info_archive :: string

text \<open>A line printed by the backfill sweep: the file and the exception it met.\<close>

datatype log_entry = Warn path error

text \<open>
  The world the program runs in: the regular files (an association list, whose order is
  the order in which a directory lists its entries), the directories, the table
  \<open>archive_images\<close> (\<open>None\<close> until \<open>init-db\<close> has created it) and the warnings
  printed so far.
\<close>

record world =
  files :: "(path \<times> regular_file) list"
  dirs :: "path set"
  db :: "archive_row list option"
  log :: "log_entry list"

section \<open>Configuration\<close>

definition INCOMING_DIR :: path where
  "INCOMING_DIR = [''incoming'']"

definition CURRENT_DIR :: path where
  "CURRENT_DIR = [''current'']"

definition ARCHIVE_DIR :: path where
  "ARCHIVE_DIR = [''archive'']"

definition OLD_INCOMING_DIR :: path where
  "OLD_INCOMING_DIR = [''old incoming'']"

definition STATIONS :: "station_cfg list" where
  "STATIONS =
    [\<lparr>key = ''mmaria_scandinavia'', project = ''MMARIA'', country = ''Norway'',
      station = ''MMARIA Scandinavia'',
      map_embed = ''https://www.google.com/maps/d/u/0/embed?mid=1A70yF5VLpIKCW6-V_TgGJFn6Qok'',
      incoming_filename = ''multilink_overview_mmaria-norway.png''\<rparr>,
     \<lparr>key = ''mmaria_germany'', project = ''MMARIA'', country = ''Germany'',
      station = ''MMARIA Germany'',
      map_embed = ''https://www.google.com/maps/d/u/0/embed?mid=1I6D20ucZeomNTYKe3iDHF3jtPXm36CRx'',
      incoming_filename = ''multilink_overview_mmaria-germany.png''\<rparr>,
     \<lparr>key = ''simone_jicamarca'', project = ''SIMONe'', country = ''Peru'',
      station = ''SIMONe Jicamarca'',
      map_embed = ''https://www.google.com/maps/d/u/0/embed?mid=1IxOgSL2Yh3NxMPDsR3nCFNTTIeFXuF56'',
      incoming_filename = ''multilink_overview_simone-peru.png''\<rparr>,
     \<lparr>key = ''simone_piura'', project = ''SIMONe'', country = ''Peru'',
      station = ''SIMONe Piura'',
      map_embed = ''https://www.google.com/maps/d/embed?mid=1ynGhjIEs0zK7nZp6xt1RJE86ALFMGguI'',
      incoming_filename = ''multilink_overview_simone-peru2.png''\<rparr>,
     \<lparr>key = ''simone_argentina'', project = ''SIMONe'', country = ''Argentina'',
      station = ''SIMONe Argentina'',
      map_embed = ''https://www.google.com/maps/d/embed?mid=1AGS55_83ywb7weAJ-O2VqRNw6F0SKne5'',
      incoming_filename = ''multilink_overview_simone-argentina.png''\<rparr>,
     \<lparr>key = ''simone_newmexico'', project = ''SIMONe'', country = ''USA'',
      station = ''SIMONe New Mexico'',
      map_embed = ''https://www.google.com/maps/d/u/0/embed?mid=1jZVpT6BahHtqejR2qziAi5xh5bWKtcs&ehbc=2E312F'',
      incoming_filename = ''multilink_overview_simone-new_mexico.png''\<rparr>,
     \<lparr>key = ''simone_haystack'', project = ''SIMONe'', country = ''USA'',
      station = ''SIMONe Haystack'',
      map_embed = ''https://www.google.com/maps/d/embed?mid=1ugVi-xvVCkU7yc3lcuOJXbyV6qK1UDY&ehbc=2E312F'',
      incoming_filename = ''multilink_overview_simone-haystack.png''\<rparr>]"

section \<open>The file system\<close>

text \<open>\<open>Path.exists()\<close>: a regular file or a directory is there.\<close>

definition path_exists :: "world \<Rightarrow> path \<Rightarrow> bool" where
  "path_exists w p \<longleftrightarrow> map_of (files w) p \<noteq> None \<or> p \<in> dirs w"

text \<open>
  \<open>p.stat().st_mtime\<close>. Directories carry no timestamp in the model: the program
  reads the timestamp of regular files only, wherever its directories hold what it
  expects them to hold.
\<close>

definition stat_mtime :: "world \<Rightarrow> path \<Rightarrow> error + int" where
  "stat_mtime w p =
     (case map_of (files w) p of
        None \<Rightarrow> Inl FileNotFoundError
      | Some f \<Rightarrow> Inr (mtime f))"

text \<open>\<open>p.mkdir(parents=True, exist_ok=True)\<close>: the directory and every ancestor.\<close>

definition mkdir_parents :: "path \<Rightarrow> world \<Rightarrow> world" where
  "mkdir_parents p w = w\<lparr>dirs := dirs w \<union> set (map (\<lambda>n. take n p) [1..<Suc (length p)])\<rparr>"

text \<open>
  \<open>shutil.copy2(src, dst)\<close>: the copy has the bytes, the modification time and the
  mode of the source. It raises when the source is missing or unreadable, when source
  and destination are one file, and when the directory of the destination is missing.
\<close>

definition copy2 :: "path \<Rightarrow> path \<Rightarrow> world \<Rightarrow> error + world" where
  "copy2 src dst w =
     (case map_of (files w) src of
        None \<Rightarrow> Inl FileNotFoundError
      | Some f \<Rightarrow>
          if src = dst then Inl SameFileError
          else if \<not> readable f then Inl PermissionError
          else if butlast dst \<notin> dirs w then Inl FileNotFoundError
          else Inr (w\<lparr>files := AList.update dst f (files w)\<rparr>))"

text \<open>\<open>p.unlink(missing_ok=True)\<close>.\<close>

definition unlink :: "path \<Rightarrow> world \<Rightarrow> world" where
  "unlink p w = w\<lparr>files := AList.delete p (files w)\<rparr>"

text \<open>\<open>p.name\<close>: the last component (empty for the empty path).\<close>

definition name :: "path \<Rightarrow> string" where
  "name p = (if p = [] then [] else last p)"

text \<open>\<open>p.as_posix()\<close>, which is also \<open>str(p)\<close> on a POSIX system.\<close>

fun as_posix :: "path \<Rightarrow> string" where
  "as_posix [] = ''.''"
| "as_posix [c] = c"
| "as_posix (c # cs) = c @ ''/'' @ as_posix cs"

text \<open>
  \<open>src_dir.glob("*.png")\<close> restricted to regular files: the files directly inside the
  directory whose name ends in \<open>.png\<close>, in the order the directory lists them.
\<close>

definition is_png :: "string \<Rightarrow> bool" where
  "is_png n \<longleftrightarrow> drop (length n - 4) n = ''.png''"

definition glob_png :: "world \<Rightarrow> path \<Rightarrow> (path \<times> regular_file) list" where
  "glob_png w d = filter (\<lambda>(p, f). p \<noteq> [] \<and> butlast p = d \<and> is_png (last p)) (files w)"

section \<open>The UTC day of a timestamp\<close>

text \<open>
  \<open>datetime.fromtimestamp(ts, tz=timezone.utc)\<close> gives the proleptic Gregorian date of
  day \<open>ts div 86400\<close> after 1970-01-01 and raises outside the years 1 to 9999.
\<close>

definition civil_from_days :: "int \<Rightarrow> int \<times> int \<times> int" where
  "civil_from_days n =
     (let z = n + 719468;
          era = z div 146097;
          doe = z mod 146097;
          yoe = (doe - doe div 1460 + doe div 36524 - doe div 146096) div 365;
          doy = doe - (365 * yoe + yoe div 4 - yoe div 100);
          mp = (5 * doy + 2) div 153;
          d = doy - (153 * mp + 2) div 5 + 1;
          m = (if mp < 10 then mp + 3 else mp - 9);
          y = yoe + era * 400 + (if m \<le> 2 then 1 else 0)
      in (y, m, d))"

definition fromtimestamp_utc :: "int \<Rightarrow> error + int \<times> int \<times> int" where
  "fromtimestamp_utc ts =
     (if ts < - 62135596800 \<or> 253402300799 < ts then Inl ValueError
      else Inr (civil_from_days (ts div 86400)))"

definition digit :: "int \<Rightarrow> char" where
  "digit k = ''0123456789'' ! nat (k mod 10)"

definition pad2 :: "int \<Rightarrow> string" where
  "pad2 k = [digit (k div 10), digit k]"

definition pad4 :: "int \<Rightarrow> string" where
  "pad4 k = [digit (k div 1000), digit (k div 100), digit (k div 10), digit k]"

text \<open>\<open>dt.strftime("%Y-%m-%d")\<close>, the year padded to four digits.\<close>

definition strftime_ymd :: "int \<times> int \<times> int \<Rightarrow> string" where
  "strftime_ymd ymd = (case ymd of (y, m, d) \<Rightarrow> pad4 y @ ''-'' @ pad2 m @ ''-'' @ pad2 d)"

definition utc_date_from_mtime :: "world \<Rightarrow> path \<Rightarrow> error + string" where
  "utc_date_from_mtime w p =
     (case stat_mtime w p of
        Inl e \<Rightarrow> Inl e
      | Inr ts \<Rightarrow>
          (case fromtimestamp_utc ts of
             Inl e \<Rightarrow> Inl e
           | Inr ymd \<Rightarrow> Inr (strftime_ymd ymd)))"

text \<open>\<open>s.split(c)\<close> for a one-character separator.\<close>

fun split_on :: "char \<Rightarrow> string \<Rightarrow> string list" where
  "split_on c [] = [[]]"
| "split_on c (x # xs) =
     (if x = c then [] # split_on c xs
      else (case split_on c xs of
              [] \<Rightarrow> [[x]]
            | r # rs \<Rightarrow> (x # r) # rs))"

section \<open>The catalog\<close>

text \<open>
  \<open>INSERT ... ON CONFLICT(station_key, date) DO UPDATE SET image_name, country,
  station, file_path\<close>: a row with the same station key and date is updated in place,
  otherwise the new row is appended.
\<close>

definition conflicts :: "archive_row \<Rightarrow> archive_row \<Rightarrow> bool" where
  "conflicts new old \<longleftrightarrow> station_key old = station_key new \<and> date old = date new"

definition do_update :: "archive_row \<Rightarrow> archive_row \<Rightarrow> archive_row" where
  "do_update new old =
     old\<lparr>image_name := image_name new, row_country := row_country new,
         row_station := row_station new, file_path := file_path new\<rparr>"

definition upsert :: "archive_row \<Rightarrow> archive_row list \<Rightarrow> archive_row list" where
  "upsert new rows =
     (if \<exists>old \<in> set rows. conflicts new old
      then map (\<lambda>old. if conflicts new old then do_update new old else old) rows
      else rows @ [new])"

definition db_upsert :: "archive_row \<Rightarrow> world \<Rightarrow> error + world" where
  "db_upsert new w =
     (case db w of
        None \<Rightarrow> Inl OperationalError
      | Some rows \<Rightarrow> Inr (w\<lparr>db := Some (upsert new rows)\<rparr>))"

text \<open>\<open>init-db\<close>: \<open>CREATE TABLE IF NOT EXISTS\<close>.\<close>

definition init_db_cmd :: "world \<Rightarrow> world" where
  "init_db_cmd w = (case db w of None \<Rightarrow> w\<lparr>db := Some []\<rparr> | Some rows \<Rightarrow> w)"

section \<open>File operations and the archive logic\<close>

definition ensure_dirs_for_station :: "string \<Rightarrow> world \<Rightarrow> world" where
  "ensure_dirs_for_station k w =
     mkdir_parents (OLD_INCOMING_DIR @ [k])
       (mkdir_parents (ARCHIVE_DIR @ [k])
          (mkdir_parents (CURRENT_DIR @ [k])
             (mkdir_parents (INCOMING_DIR @ [k]) w)))"

text \<open>
  \<open>_archive_file\<close>. The result is the exception raised, or the returned dictionary, or
  \<open>None\<close>; the world is the one the call leaves behind, also when it raises.
\<close>

definition archive_file :: "path \<Rightarrow> station_cfg \<Rightarrow> world \<Rightarrow> (error + info option) \<times> world" where
  "archive_file src st w =
     (let w1 = ensure_dirs_for_station (key st) w in
      if \<not> path_exists w1 src then (Inr None, w1)
      else
        (case utc_date_from_mtime w1 src of
           Inl e \<Rightarrow> (Inl e, w1)
         | Inr date_str \<Rightarrow>
             (case split_on CHR ''-'' date_str of
                [yyyy, mm, dd] \<Rightarrow>
                  (let archive_dir = ARCHIVE_DIR @ [key st, yyyy, mm, dd];
                       w2 = mkdir_parents archive_dir w1;
                       image_name = name src;
                       archive_dst = archive_dir @ [image_name]
                   in (case copy2 src archive_dst w2 of
                         Inl e \<Rightarrow> (Inl e, w2)
                       | Inr w3 \<Rightarrow>
                           (case db_upsert
                                   \<lparr>image_name = image_name, row_country = country st,
                                    row_station = station st, date = date_str,
                                    station_key = key st,
                                    file_path = as_posix archive_dst\<rparr> w3 of
                              Inl e \<Rightarrow> (Inl e, w3)
                            | Inr w4 \<Rightarrow>
                                (Inr (Some \<lparr>info_key = key st, info_date = date_str,
                                            info_archive = as_posix archive_dst\<rparr>), w4))))
              | _ \<Rightarrow> (Inl ValueError, w1))))"

definition is_newer_than_current :: "world \<Rightarrow> path \<Rightarrow> path \<Rightarrow> bool" where
  "is_newer_than_current w src current_dst =
     (if \<not> path_exists w current_dst then True
      else
        (case stat_mtime w src of
           Inl e \<Rightarrow> False
         | Inr s \<Rightarrow>
             (case stat_mtime w current_dst of
                Inl e \<Rightarrow> False
              | Inr c \<Rightarrow> c < s)))"

definition incoming_path :: "station_cfg \<Rightarrow> path" where
  "incoming_path st = INCOMING_DIR @ [key st, incoming_filename st]"

definition current_path :: "station_cfg \<Rightarrow> path" where
  "current_path st = CURRENT_DIR @ [key st, ''latest.png'']"

definition mirror_current_and_archive ::
  "station_cfg \<Rightarrow> world \<Rightarrow> (error + info option) \<times> world" where
  "mirror_current_and_archive st w =
     (let w1 = ensure_dirs_for_station (key st) w;
          src = incoming_path st
      in if \<not> path_exists w1 src then (Inr None, w1)
         else
           (let current_dst = current_path st
            in if is_newer_than_current w1 src current_dst
               then (case copy2 src current_dst w1 of
                       Inl e \<Rightarrow> (Inl e, w1)
                     | Inr w2 \<Rightarrow> archive_file src st w2)
               else archive_file src st w1))"

text \<open>
  The loop of \<open>archive_only_from_old_incoming\<close>: a file is deleted when its archival
  returned a dictionary; an exception is caught, printed and the loop goes on.
\<close>

fun sweep :: "station_cfg \<Rightarrow> path list \<Rightarrow> info list \<Rightarrow> world \<Rightarrow> info list \<times> world" where
  "sweep st [] archived w = (archived, w)"
| "sweep st (src # pngs) archived w =
     (case archive_file src st w of
        (Inr (Some i), w') \<Rightarrow> sweep st pngs (archived @ [i]) (unlink src w')
      | (Inr None, w') \<Rightarrow> sweep st pngs archived w'
      | (Inl e, w') \<Rightarrow> sweep st pngs archived (w'\<lparr>log := log w' @ [Warn src e]\<rparr>))"

definition old_incoming_pngs :: "world \<Rightarrow> path \<Rightarrow> path list" where
  "old_incoming_pngs w src_dir = map fst (sort_key (\<lambda>(p, f). mtime f) (glob_png w src_dir))"

definition archive_only_from_old_incoming ::
  "station_cfg \<Rightarrow> world \<Rightarrow> (error + info list option) \<times> world" where
  "archive_only_from_old_incoming st w =
     (let w1 = ensure_dirs_for_station (key st) w;
          src_dir = OLD_INCOMING_DIR @ [key st]
      in if \<not> path_exists w1 src_dir then (Inr None, w1)
         else
           (case sweep st (old_incoming_pngs w1 src_dir) [] w1 of
              (archived, w2) \<Rightarrow> (Inr (Some archived), w2)))"

section \<open>The scan command\<close>

fun mirror_all ::
  "station_cfg list \<Rightarrow> info list \<Rightarrow> world \<Rightarrow> (error + info list) \<times> world" where
  "mirror_all [] created w = (Inr created, w)"
| "mirror_all (st # sts) created w =
     (case mirror_current_and_archive st w of
        (Inl e, w') \<Rightarrow> (Inl e, w')
      | (Inr None, w') \<Rightarrow> mirror_all sts created w'
      | (Inr (Some i), w') \<Rightarrow> mirror_all sts (created @ [i]) w')"

fun backfill_all ::
  "station_cfg list \<Rightarrow> info list \<Rightarrow> world \<Rightarrow> (error + info list) \<times> world" where
  "backfill_all [] archived_old w = (Inr archived_old, w)"
| "backfill_all (st # sts) archived_old w =
     (case archive_only_from_old_incoming st w of
        (Inl e, w') \<Rightarrow> (Inl e, w')
      | (Inr None, w') \<Rightarrow> (Inl TypeError, w')
      | (Inr (Some archived), w') \<Rightarrow> backfill_all sts (archived_old @ archived) w')"

text \<open>
  \<open>scan\<close> returns the two lists it prints: the stations updated and the files taken
  from \<open>old incoming\<close>.
\<close>

definition scan_cmd :: "world \<Rightarrow> (error + info list \<times> info list) \<times> world" where
  "scan_cmd w =
     (case mirror_all STATIONS [] w of
        (Inl e, w') \<Rightarrow> (Inl e, w')
      | (Inr created, w') \<Rightarrow>
          (case backfill_all STATIONS [] w' of
             (Inl e, w'') \<Rightarrow> (Inl e, w'')
           | (Inr archived_old, w'') \<Rightarrow> (Inr (created, archived_old), w'')))"

text \<open>The directories \<open>_ensure_dirs_for_station\<close> makes sure of.\<close>

definition station_dirs :: "string \<Rightarrow> path set" where
  "station_dirs k = {INCOMING_DIR, INCOMING_DIR @ [k], CURRENT_DIR, CURRENT_DIR @ [k],
     ARCHIVE_DIR, ARCHIVE_DIR @ [k], OLD_INCOMING_DIR, OLD_INCOMING_DIR @ [k]}"

section \<open>What the claims speak of\<close>

text \<open>
  The archive directory \<open>archive/<station_key>/<YYYY>/<MM>/<DD>\<close> of a date, the
  place of a file in it, and the catalog row and the dictionary that belong to them.
\<close>

definition archive_dir_for :: "station_cfg \<Rightarrow> int \<times> int \<times> int \<Rightarrow> path" where
  "archive_dir_for st ymd = (case ymd of (y, m, d) \<Rightarrow> ARCHIVE_DIR @ [key st, pad4 y, pad2 m, pad2 d])"

definition archive_dst_for :: "station_cfg \<Rightarrow> int \<times> int \<times> int \<Rightarrow> path \<Rightarrow> path" where
  "archive_dst_for st ymd src = archive_dir_for st ymd @ [name src]"

definition row_for :: "station_cfg \<Rightarrow> int \<times> int \<times> int \<Rightarrow> path \<Rightarrow> archive_row" where
  "row_for st ymd src =
     \<lparr>image_name = name src, row_country = country st, row_station = station st,
      date = strftime_ymd ymd, station_key = key st,
      file_path = as_posix (archive_dst_for st ymd src)\<rparr>"

definition info_for :: "station_cfg \<Rightarrow> int \<times> int \<times> int \<Rightarrow> path \<Rightarrow> info" where
  "info_for st ymd src =
     \<lparr>info_key = key st, info_date = strftime_ymd ymd,
      info_archive = as_posix (archive_dst_for st ymd src)\<rparr>"

text \<open>A path below \<open>archive\<close>.\<close>

definition in_archive :: "path \<Rightarrow> bool" where
  "in_archive p \<longleftrightarrow> take 1 p = ARCHIVE_DIR"

text \<open>What \<open>archive_file\<close> does with a regular file outside the archive.\<close>

definition archive_outcome :: "bool \<Rightarrow> regular_file \<Rightarrow> error + int \<times> int \<times> int" where
  "archive_outcome has_table f =
     (case fromtimestamp_utc (mtime f) of
        Inl e \<Rightarrow> Inl e
      | Inr ymd \<Rightarrow>
          if \<not> readable f then Inl PermissionError
          else if \<not> has_table then Inl OperationalError
          else Inr ymd)"

section \<open>The catalog invariant\<close>

text \<open>The key of the \<open>UNIQUE (station_key, date)\<close> constraint.\<close>

definition row_key :: "archive_row \<Rightarrow> string \<times> string" where
  "row_key r = (station_key r, date r)"

text \<open>The catalog records of station key \<open>S\<close> and day \<open>D\<close>.\<close>

definition records_for :: "string \<Rightarrow> string \<Rightarrow> world \<Rightarrow> archive_row list" where
  "records_for S D w =
     (case db w of
        None \<Rightarrow> []
      | Some rows \<Rightarrow> filter (\<lambda>r. station_key r = S \<and> date r = D) rows)"

definition catalog_unique :: "world \<Rightarrow> bool" where
  "catalog_unique w \<longleftrightarrow> (\<forall>S D. length (records_for S D w) \<le> 1)"

text \<open>
  What can happen to the world between two observations: a command of the program, a
  call of one of its three file operations, or anybody else rewriting the files and
  directories (the producer overwriting \<open>incoming\<close>, an operator filling
  \<open>old incoming\<close>). Only the program writes the catalog.
\<close>

datatype invocation =
  Init_db
  | Mirror station_cfg
  | Archive path station_cfg
  | Backfill station_cfg
  | Scan
  | External "(path \<times> regular_file) list" "path set"

fun exec :: "invocation \<Rightarrow> world \<Rightarrow> world" where
  "exec Init_db w = init_db_cmd w"
| "exec (Mirror st) w = snd (mirror_current_and_archive st w)"
| "exec (Archive src st) w = snd (archive_file src st w)"
| "exec (Backfill st) w = snd (archive_only_from_old_incoming st w)"
| "exec Scan w = snd (scan_cmd w)"
| "exec (External fs ds) w = w\<lparr>files := fs, dirs := ds\<rparr>"

definition run :: "invocation list \<Rightarrow> world \<Rightarrow> world" where
  "run ops w = fold exec ops w"

text \<open>
  A small world for the examples: station \<open>simone_piura\<close> has an incoming file of
  2024-03-01 23:50:00 UTC and three files in \<open>old incoming\<close>, one of them unreadable,
  next to a file that is no PNG; the table exists and is empty.
\<close>

definition demo_world :: world where
  "demo_world =
     \<lparr>files =
        [([''incoming'', ''simone_piura'', ''multilink_overview_simone-peru2.png''],
          \<lparr>mtime = 1709337000, content = ''A'', readable = True\<rparr>),
         ([''old incoming'', ''simone_piura'', ''b.png''],
          \<lparr>mtime = 1709337300, content = ''B'', readable = True\<rparr>),
         ([''old incoming'', ''simone_piura'', ''c.png''],
          \<lparr>mtime = 1009337000, content = ''C'', readable = False\<rparr>),
         ([''old incoming'', ''simone_piura'', ''d.png''],
          \<lparr>mtime = 1009337000, content = ''D'', readable = True\<rparr>),
         ([''old incoming'', ''simone_piura'', ''notes.txt''],
          \<lparr>mtime = 1009337000, content = ''E'', readable = True\<rparr>)],
      dirs = {}, db = Some [], log = []\<rparr>"

text \<open>The catalog \<open>b\<close> comes from \<open>a\<close> by upserts.\<close>

definition db_grows :: "archive_row list option \<Rightarrow> archive_row list option \<Rightarrow> bool" where
  "db_grows a b \<longleftrightarrow>
     (case a of None \<Rightarrow> b = None | Some rows \<Rightarrow> (\<exists>news. b = Some (fold upsert news rows)))"

text \<open>The fourth entry of \<open>STATIONS\<close>.\<close>

definition simone_piura :: station_cfg where
  "simone_piura =
     \<lparr>key = ''simone_piura'', project = ''SIMONe'', country = ''Peru'',
      station = ''SIMONe Piura'',
      map_embed = ''https://www.google.com/maps/d/embed?mid=1ynGhjIEs0zK7nZp6xt1RJE86ALFMGguI'',
      incoming_filename = ''multilink_overview_simone-peru2.png''\<rparr>"

text \<open>The demo world after a newer image was promoted to \<open>current\<close>.\<close>

definition newer_current_world :: world where
  "newer_current_world =
     demo_world\<lparr>files := files demo_world @
       [([''current'', ''simone_piura'', ''latest.png''],
         \<lparr>mtime = 1709337600, content = ''N'', readable = True\<rparr>)]\<rparr>"

text \<open>A fresh data directory: nothing in it but the empty table.\<close>

definition fresh_world :: world where
  "fresh_world = \<lparr>files = [], dirs = {}, db = Some [], log = []\<rparr>"

section \<open>The backfill sweep\<close>










definition file_mtime :: "world \<Rightarrow> path \<Rightarrow> int" where
  "file_mtime w p = (case map_of (files w) p of None \<Rightarrow> 0 | Some f \<Rightarrow> mtime f)"

definition day_of :: "world \<Rightarrow> path \<Rightarrow> string" where
  "day_of w p = strftime_ymd (civil_from_days (file_mtime w p div 86400))"

definition row_of :: "station_cfg \<Rightarrow> world \<Rightarrow> path \<Rightarrow> archive_row" where
  "row_of st w p = row_for st (civil_from_days (file_mtime w p div 86400)) p"


section \<open>The search\<close>

text \<open>
  Strings are UTF-8 bytes. \<open>str.strip()\<close> removes the white-space characters of Python
  from both ends: U+0009 to U+000D, U+001C to U+0020, U+0085, U+00A0, U+1680, U+2000 to
  U+200A, U+2028, U+2029, U+202F, U+205F and U+3000, here in their UTF-8 encoding.
\<close>

definition white_spaces :: "string list" where
  "white_spaces =
     [[CHR 0x09], [CHR 0x0A], [CHR 0x0B], [CHR 0x0C], [CHR 0x0D],
      [CHR 0x1C], [CHR 0x1D], [CHR 0x1E], [CHR 0x1F], [CHR 0x20],
      [CHR 0xC2, CHR 0x85], [CHR 0xC2, CHR 0xA0],
      [CHR 0xE1, CHR 0x9A, CHR 0x80],
      [CHR 0xE2, CHR 0x80, CHR 0x80], [CHR 0xE2, CHR 0x80, CHR 0x81],
      [CHR 0xE2, CHR 0x80, CHR 0x82], [CHR 0xE2, CHR 0x80, CHR 0x83],
      [CHR 0xE2, CHR 0x80, CHR 0x84], [CHR 0xE2, CHR 0x80, CHR 0x85],
      [CHR 0xE2, CHR 0x80, CHR 0x86], [CHR 0xE2, CHR 0x80, CHR 0x87],
      [CHR 0xE2, CHR 0x80, CHR 0x88], [CHR 0xE2, CHR 0x80, CHR 0x89],
      [CHR 0xE2, CHR 0x80, CHR 0x8A],
      [CHR 0xE2, CHR 0x80, CHR 0xA8], [CHR 0xE2, CHR 0x80, CHR 0xA9],
      [CHR 0xE2, CHR 0x80, CHR 0xAF], [CHR 0xE2, CHR 0x81, CHR 0x9F],
      [CHR 0xE3, CHR 0x80, CHR 0x80]]"

definition leading_space :: "string \<Rightarrow> string option" where
  "leading_space s = find (\<lambda>ws. ws \<noteq> [] \<and> take (length ws) s = ws) white_spaces"

definition trailing_space :: "string \<Rightarrow> string option" where
  "trailing_space s =
     find (\<lambda>ws. ws \<noteq> [] \<and> length ws \<le> length s \<and> drop (length s - length ws) s = ws)
       white_spaces"

function lstrip :: "string \<Rightarrow> string" where
  "lstrip s =
     (case leading_space s of
        None \<Rightarrow> s
      | Some ws \<Rightarrow> lstrip (drop (length ws) s))"
  by pat_completeness auto
termination
proof (relation "measure length")
  show "wf (measure length)" by simp
next
  fix s ws
  assume "leading_space s = Some ws"
  then have n: "ws \<noteq> []" and t: "take (length ws) s = ws"
    by (auto simp: leading_space_def find_Some_iff)
  from t have "length (take (length ws) s) = length ws" by (rule arg_cong)
  then have "length ws \<le> length s" by simp
  with n show "(drop (length ws) s, s) \<in> measure length" by (cases ws) auto
qed

function rstrip :: "string \<Rightarrow> string" where
  "rstrip s =
     (case trailing_space s of
        None \<Rightarrow> s
      | Some ws \<Rightarrow> rstrip (take (length s - length ws) s))"
  by pat_completeness auto
termination
proof (relation "measure length")
  show "wf (measure length)" by simp
next
  fix s ws
  assume "trailing_space s = Some ws"
  then have "ws \<noteq> []" and "length ws \<le> length s"
    by (auto simp: trailing_space_def find_Some_iff)
  then show "(take (length s - length ws) s, s) \<in> measure length" by (cases ws) auto
qed

definition strip :: "string \<Rightarrow> string" where
  "strip s = rstrip (lstrip s)"

text \<open>\<open>request.args.get(name, '')\<close>: the argument, or the empty string when it is absent.\<close>

definition args_get :: "string option \<Rightarrow> string" where
  "args_get a = (case a of None \<Rightarrow> [] | Some s \<Rightarrow> s)"

text \<open>
  The \<open>WHERE\<close> clause \<open>search\<close> builds: a condition for every query string that is not
  empty.
\<close>

definition where_clause :: "string \<Rightarrow> string \<Rightarrow> string \<Rightarrow> archive_row \<Rightarrow> bool" where
  "where_clause q_country q_station q_date r \<longleftrightarrow>
     (q_country = [] \<or> row_country r = q_country) \<and>
     (q_station = [] \<or> row_station r = q_station) \<and>
     (q_date = [] \<or> date r = q_date)"

text \<open>
  \<open>ORDER BY date DESC, station ASC\<close>, with the byte order of SQLite's \<open>BINARY\<close>
  collation: \<open>r\<close> may stand before \<open>r'\<close>. Rows that tie keep the order of the table.
\<close>

definition order_by :: "archive_row \<Rightarrow> archive_row \<Rightarrow> bool" where
  "order_by r r' \<longleftrightarrow> date r' < date r \<or> (date r = date r' \<and> row_station r \<le> row_station r')"

fun insert_row :: "archive_row \<Rightarrow> archive_row list \<Rightarrow> archive_row list" where
  "insert_row r [] = [r]"
| "insert_row r (r' # rs) = (if order_by r r' then r # r' # rs else r' # insert_row r rs)"

definition sort_rows :: "archive_row list \<Rightarrow> archive_row list" where
  "sort_rows rs = foldr insert_row rs []"

text \<open>The columns of the \<open>SELECT\<close>: image_name, country, station, date, file_path.\<close>

record result_row =
  res_image_name :: string
  res_country :: string
  res_station :: string
  res_date :: string
  res_file_path :: string

definition select_columns :: "archive_row \<Rightarrow> result_row" where
  "select_columns r =
     \<lparr>res_image_name = image_name r, res_country = row_country r,
      res_station = row_station r, res_date = date r, res_file_path = file_path r\<rparr>"

text \<open>\<open>search\<close>: the list \<open>results\<close> handed to the template.\<close>

definition search ::
  "string option \<Rightarrow> string option \<Rightarrow> string option \<Rightarrow> world \<Rightarrow> error + result_row list" where
  "search country_arg station_arg date_arg w =
     (let q_country = strip (args_get country_arg);
          q_station = strip (args_get station_arg);
          q_date = strip (args_get date_arg)
      in case db w of
           None \<Rightarrow> Inl OperationalError
         | Some rows \<Rightarrow>
             Inr (map select_columns
                    (sort_rows (filter (where_clause q_country q_station q_date) rows))))"

text \<open>
  The reading of the filters the claim words: a filter that is absent or empty matches
  every record, any other one the records whose column equals it.
\<close>

definition exact_filter :: "string option \<Rightarrow> string \<Rightarrow> bool" where
  "exact_filter a v \<longleftrightarrow> (case a of None \<Rightarrow> True | Some s \<Rightarrow> s = [] \<or> v = s)"

text \<open>A catalog with the one record of station \<open>simone_piura\<close> for 2024-03-01.\<close>

definition peru_row :: archive_row where
  "peru_row =
     \<lparr>image_name = ''multilink_overview_simone-peru2.png'', row_country = ''Peru'',
      row_station = ''SIMONe Piura'', date = ''2024-03-01'', station_key = ''simone_piura'',
      file_path = ''archive/simone_piura/2024/03/01/multilink_overview_simone-peru2.png''\<rparr>"

definition peru_world :: world where
  "peru_world = \<lparr>files = [], dirs = {}, db = Some [peru_row], log = []\<rparr>"

section \<open>What the operations leave alone\<close>

text \<open>A path of three or more components outside the archive: a file of a station.\<close>

definition station_file :: "path \<Rightarrow> bool" where
  "station_file p \<longleftrightarrow> 2 < length p \<and> \<not> in_archive p"

text \<open>Has the station a readable incoming file that is newer than its current file?\<close>

definition promotable :: "station_cfg \<Rightarrow> world \<Rightarrow> bool" where
  "promotable st w \<longleftrightarrow>
     (case map_of (files w) (incoming_path st) of
        None \<Rightarrow> False
      | Some f \<Rightarrow> readable f \<and> is_newer_than_current w (incoming_path st) (current_path st))"

section \<open>The current file\<close>

text \<open>The invocations of the program itself.\<close>

fun is_program :: "invocation \<Rightarrow> bool" where
  "is_program (External fs ds) = False"
| "is_program op = True"

text \<open>The file at \<open>p\<close>, if \<open>w\<close> has one, is still there in \<open>w'\<close> and not older.\<close>

definition not_older :: "path \<Rightarrow> world \<Rightarrow> world \<Rightarrow> bool" where
  "not_older p w w' \<longleftrightarrow>
     (case map_of (files w) p of
        None \<Rightarrow> True
      | Some c \<Rightarrow> (case map_of (files w') p of None \<Rightarrow> False | Some c' \<Rightarrow> mtime c \<le> mtime c'))"

section \<open>Properties of the file operations\<close>

lemma files_mkdir_parents [simp]: "files (mkdir_parents p w) = files w"
  and db_mkdir_parents [simp]: "db (mkdir_parents p w) = db w"
  and log_mkdir_parents [simp]: "log (mkdir_parents p w) = log w"
  by (simp_all add: mkdir_parents_def)

lemma dirs_mkdir_parents_mono: "dirs w \<subseteq> dirs (mkdir_parents p w)"
  by (auto simp: mkdir_parents_def)

lemma self_in_mkdir_parents: "p \<noteq> [] \<Longrightarrow> p \<in> dirs (mkdir_parents p w)"
  by (cases p) (auto simp: mkdir_parents_def intro!: image_eqI[where x="length p"])

lemma mkdir_parents_absorb: "p \<in> dirs w \<Longrightarrow> (\<forall>n. 0 < n \<longrightarrow> n \<le> length p \<longrightarrow> take n p \<in> dirs w) \<Longrightarrow> mkdir_parents p w = w"
  by (auto simp: mkdir_parents_def intro!: world.equality)

lemma files_ensure [simp]: "files (ensure_dirs_for_station k w) = files w"
  and db_ensure [simp]: "db (ensure_dirs_for_station k w) = db w"
  and log_ensure [simp]: "log (ensure_dirs_for_station k w) = log w"
  by (simp_all add: ensure_dirs_for_station_def)

lemma dirs_ensure_mono: "dirs w \<subseteq> dirs (ensure_dirs_for_station k w)"
  unfolding ensure_dirs_for_station_def
  using dirs_mkdir_parents_mono by blast

lemma upt_1_3: "[1..<3] = [1, 2]" by (simp add: upt_rec)

lemma dirs_ensure: "dirs (ensure_dirs_for_station k w) = dirs w \<union> station_dirs k"
  by (auto simp: ensure_dirs_for_station_def mkdir_parents_def station_dirs_def
      INCOMING_DIR_def CURRENT_DIR_def ARCHIVE_DIR_def OLD_INCOMING_DIR_def upt_1_3)

lemma split_on_no_sep: "c \<notin> set xs \<Longrightarrow> split_on c xs = [xs]"
  by (induction xs) auto

lemma split_on_sep: "c \<notin> set xs \<Longrightarrow> split_on c (xs @ c # ys) = xs # split_on c ys"
  by (induction xs) auto

lemma digit_in: "digit k \<in> set ''0123456789''"
proof -
  have "nat (k mod 10) < length ''0123456789''" by simp
  then show ?thesis unfolding digit_def by (rule nth_mem)
qed

lemma digit_not_dash [simp]: "digit k \<noteq> CHR ''-''" "CHR ''-'' \<noteq> digit k"
  using digit_in[of k] by auto

lemma split_strftime: "split_on CHR ''-'' (strftime_ymd (y, m, d)) = [pad4 y, pad2 m, pad2 d]"
proof -
  have a: "CHR ''-'' \<notin> set (pad4 y)" and b: "CHR ''-'' \<notin> set (pad2 m)" and c: "CHR ''-'' \<notin> set (pad2 d)"
    by (simp_all add: pad4_def pad2_def)
  have "strftime_ymd (y, m, d) = pad4 y @ CHR ''-'' # (pad2 m @ CHR ''-'' # pad2 d)"
    by (simp add: strftime_ymd_def)
  then show ?thesis
    by (simp only: split_on_sep[OF a] split_on_sep[OF b] split_on_no_sep[OF c])
qed

lemma butlast_archive_dst [simp]: "butlast (archive_dst_for st ymd src) = archive_dir_for st ymd"
  by (simp add: archive_dst_for_def)

lemma archive_dir_nonempty [simp]: "archive_dir_for st ymd \<noteq> []"
  by (cases ymd) (simp add: archive_dir_for_def ARCHIVE_DIR_def)

lemma archive_file_missing:
  "\<not> path_exists (ensure_dirs_for_station (key st) w) src \<Longrightarrow>
   archive_file src st w = (Inr None, ensure_dirs_for_station (key st) w)"
  by (simp add: archive_file_def)

lemma archive_file_ok:
  assumes f: "map_of (files w) src = Some f"
    and ts: "fromtimestamp_utc (mtime f) = Inr ymd"
    and r: "readable f"
    and d: "db w = Some rows"
    and ne: "src \<noteq> archive_dst_for st ymd src"
  shows "archive_file src st w =
    (Inr (Some (info_for st ymd src)),
     (mkdir_parents (archive_dir_for st ymd) (ensure_dirs_for_station (key st) w))
       \<lparr>files := AList.update (archive_dst_for st ymd src) f (files w),
        db := Some (upsert (row_for st ymd src) rows)\<rparr>)"
proof -
  obtain y m dd where ymd: "ymd = (y, m, dd)" by (cases ymd)
  let ?w1 = "ensure_dirs_for_station (key st) w"
  let ?w2 = "mkdir_parents (archive_dir_for st ymd) ?w1"
  have ex: "path_exists ?w1 src" using f by (simp add: path_exists_def)
  have dt: "utc_date_from_mtime ?w1 src = Inr (strftime_ymd ymd)"
    using f ts by (simp add: utc_date_from_mtime_def stat_mtime_def)
  have sp: "split_on CHR ''-'' (strftime_ymd ymd) = [pad4 y, pad2 m, pad2 dd]"
    unfolding ymd by (rule split_strftime)
  have dir: "ARCHIVE_DIR @ [key st, pad4 y, pad2 m, pad2 dd] = archive_dir_for st ymd"
    by (simp add: archive_dir_for_def ymd)
  have dst: "ARCHIVE_DIR @ [key st, pad4 y, pad2 m, pad2 dd, name src] = archive_dst_for st ymd src"
    by (simp add: archive_dst_for_def archive_dir_for_def ymd)
  have cp: "copy2 src (archive_dst_for st ymd src) ?w2
      = Inr (?w2\<lparr>files := AList.update (archive_dst_for st ymd src) f (files w)\<rparr>)"
    using f r ne by (simp add: copy2_def self_in_mkdir_parents)
  show ?thesis
    unfolding archive_file_def Let_def
    by (simp add: ex dt sp dir dst cp db_upsert_def d info_for_def row_for_def
        archive_dst_for_def[symmetric])
qed

lemma archive_file_file:
  assumes f: "map_of (files w) src = Some f"
  shows "archive_file src st w =
    (case fromtimestamp_utc (mtime f) of
       Inl e \<Rightarrow> (Inl e, ensure_dirs_for_station (key st) w)
     | Inr ymd \<Rightarrow>
         (let w2 = mkdir_parents (archive_dir_for st ymd) (ensure_dirs_for_station (key st) w);
              dst = archive_dst_for st ymd src
          in if src = dst then (Inl SameFileError, w2)
             else if \<not> readable f then (Inl PermissionError, w2)
             else (case db w of
                     None \<Rightarrow> (Inl OperationalError, w2\<lparr>files := AList.update dst f (files w)\<rparr>)
                   | Some rows \<Rightarrow>
                       (Inr (Some (info_for st ymd src)),
                        w2\<lparr>files := AList.update dst f (files w),
                           db := Some (upsert (row_for st ymd src) rows)\<rparr>))))"
proof (cases "fromtimestamp_utc (mtime f)")
  case (Inl e)
  then show ?thesis
    using f by (simp add: archive_file_def path_exists_def utc_date_from_mtime_def stat_mtime_def)
next
  case (Inr ymd)
  obtain y m dd where ymd: "ymd = (y, m, dd)" by (cases ymd)
  let ?w1 = "ensure_dirs_for_station (key st) w"
  let ?w2 = "mkdir_parents (archive_dir_for st ymd) ?w1"
  have ex: "path_exists ?w1 src" using f by (simp add: path_exists_def)
  have dt: "utc_date_from_mtime ?w1 src = Inr (strftime_ymd ymd)"
    using f Inr by (simp add: utc_date_from_mtime_def stat_mtime_def)
  have sp: "split_on CHR ''-'' (strftime_ymd ymd) = [pad4 y, pad2 m, pad2 dd]"
    unfolding ymd by (rule split_strftime)
  have dir: "ARCHIVE_DIR @ [key st, pad4 y, pad2 m, pad2 dd] = archive_dir_for st ymd"
    by (simp add: archive_dir_for_def ymd)
  have dst: "ARCHIVE_DIR @ [key st, pad4 y, pad2 m, pad2 dd, name src] = archive_dst_for st ymd src"
    by (simp add: archive_dst_for_def archive_dir_for_def ymd)
  have cp: "copy2 src (archive_dst_for st ymd src) ?w2 =
      (if src = archive_dst_for st ymd src then Inl SameFileError
       else if \<not> readable f then Inl PermissionError
       else Inr (?w2\<lparr>files := AList.update (archive_dst_for st ymd src) f (files w)\<rparr>))"
    using f by (simp add: copy2_def self_in_mkdir_parents)
  show ?thesis
    unfolding archive_file_def Let_def
    by (simp add: ex dt sp dir dst cp db_upsert_def Inr info_for_def row_for_def
        archive_dst_for_def[symmetric] split: option.split)
qed

lemma archive_file_not_file:
  assumes "map_of (files w) src = None"
  shows "archive_file src st w =
    (if src \<in> dirs w \<union> station_dirs (key st) then Inl FileNotFoundError else Inr None,
     ensure_dirs_for_station (key st) w)"
  using assms
  by (simp add: archive_file_def path_exists_def utc_date_from_mtime_def stat_mtime_def dirs_ensure)

lemma in_archive_dst [simp]: "in_archive (archive_dst_for st ymd src)"
  by (cases ymd) (simp add: in_archive_def archive_dst_for_def archive_dir_for_def ARCHIVE_DIR_def)

lemma not_in_archive_ne: "\<not> in_archive p \<Longrightarrow> p \<noteq> archive_dst_for st ymd src"
  using in_archive_dst by metis

lemma archive_file_fst:
  assumes "map_of (files w) src = Some f" and "\<not> in_archive src"
  shows "fst (archive_file src st w) =
    (case archive_outcome (db w \<noteq> None) f of
       Inl e \<Rightarrow> Inl e
     | Inr ymd \<Rightarrow> Inr (Some (info_for st ymd src)))"
  using assms not_in_archive_ne[OF assms(2)]
  by (auto simp: archive_file_file archive_outcome_def Let_def split: sum.split option.split)

lemma archive_file_log [simp]: "log (snd (archive_file src st w)) = log w"
  by (cases "map_of (files w) src")
    (auto simp: archive_file_file archive_file_not_file Let_def split: sum.split option.split)

lemma archive_file_dirs: "dirs w \<subseteq> dirs (snd (archive_file src st w))"
  using dirs_ensure_mono[of w "key st"]
    dirs_mkdir_parents_mono[of "ensure_dirs_for_station (key st) w"]
  by (cases "map_of (files w) src")
    (auto simp: archive_file_file archive_file_not_file Let_def split: sum.split option.split)

lemma archive_file_db:
  "db (snd (archive_file src st w)) =
    (case map_of (files w) src of
       None \<Rightarrow> db w
     | Some f \<Rightarrow>
        (case fst (archive_file src st w) of
           Inr (Some i) \<Rightarrow>
             (case (fromtimestamp_utc (mtime f), db w) of
                (Inr ymd, Some rows) \<Rightarrow> Some (upsert (row_for st ymd src) rows)
              | _ \<Rightarrow> db w)
         | _ \<Rightarrow> db w))"
  by (cases "map_of (files w) src")
    (auto simp: archive_file_file archive_file_not_file Let_def split: sum.split option.split)

lemma archive_file_files:
  "files (snd (archive_file src st w)) = files w \<or>
   (\<exists>f ymd. map_of (files w) src = Some f \<and> src \<noteq> archive_dst_for st ymd src \<and>
      files (snd (archive_file src st w)) = AList.update (archive_dst_for st ymd src) f (files w))"
  by (cases "map_of (files w) src")
    (auto simp: archive_file_file archive_file_not_file Let_def split: sum.split option.split)

lemma archive_file_lookup:
  "\<not> in_archive p \<Longrightarrow> map_of (files (snd (archive_file src st w))) p = map_of (files w) p"
  using archive_file_files[of src st w] not_in_archive_ne[of p]
  by (auto simp: update_conv')

lemma db_grows_refl [simp]: "db_grows a a"
  by (auto simp: db_grows_def split: option.split intro: exI[where x="[]"])

lemma db_grows_trans: "db_grows a b \<Longrightarrow> db_grows b c \<Longrightarrow> db_grows a c"
proof (cases a)
  case None
  assume "db_grows a b" "db_grows b c"
  then show ?thesis using None by (simp add: db_grows_def)
next
  case (Some rows)
  assume ab: "db_grows a b" and bc: "db_grows b c"
  from ab Some obtain n1 where b: "b = Some (fold upsert n1 rows)" by (auto simp: db_grows_def)
  from bc b obtain n2 where "c = Some (fold upsert n2 (fold upsert n1 rows))"
    by (auto simp: db_grows_def)
  then have "c = Some (fold upsert (n1 @ n2) rows)" by simp
  then show ?thesis using Some unfolding db_grows_def by (simp only: option.case) blast
qed

lemma db_grows_upsert: "db_grows (Some rows) (Some (upsert n rows))"
  unfolding db_grows_def by (auto intro: exI[where x="[n]"])

lemma archive_file_grows: "db_grows (db w) (db (snd (archive_file src st w)))"
  by (auto simp: archive_file_db db_grows_upsert split: option.split sum.split)

lemma copy2_db: "copy2 src dst w = Inr w' \<Longrightarrow> db w' = db w"
  by (auto simp: copy2_def split: option.splits if_splits)

lemma mirror_grows: "db_grows (db w) (db (snd (mirror_current_and_archive st w)))"
proof -
  have a: "db_grows (db w) (db (snd (archive_file src st w')))" if "db w' = db w" for src w'
    using archive_file_grows[of w' src st] that by simp
  show ?thesis
    unfolding mirror_current_and_archive_def Let_def
    by (auto split: sum.split intro!: a dest: copy2_db)
qed

lemma unlink_simps [simp]:
  "db (unlink p w) = db w" "dirs (unlink p w) = dirs w" "log (unlink p w) = log w"
  "files (unlink p w) = AList.delete p (files w)"
  by (simp_all add: unlink_def)

lemma sweep_grows: "db_grows (db w) (db (snd (sweep st pngs archived w)))"
proof (induction pngs arbitrary: archived w)
  case Nil
  show ?case by simp
next
  case (Cons src pngs)
  obtain r w' where a: "archive_file src st w = (r, w')" by (cases "archive_file src st w")
  have g: "db_grows (db w) (db w')" using archive_file_grows[of w src st] a by simp
  show ?case
  proof (cases r)
    case (Inl e)
    have "db_grows (db w') (db (snd (sweep st pngs archived (w'\<lparr>log := log w' @ [Warn src e]\<rparr>))))"
      using Cons.IH[of "w'\<lparr>log := log w' @ [Warn src e]\<rparr>" archived] by simp
    then show ?thesis using a Inl g by (auto intro: db_grows_trans)
  next
    case (Inr o1)
    show ?thesis
    proof (cases o1)
      case None
      then show ?thesis using a Inr g Cons.IH[of w' archived] by (auto intro: db_grows_trans)
    next
      case (Some i)
      have "db_grows (db w') (db (snd (sweep st pngs (archived @ [i]) (unlink src w'))))"
        using Cons.IH[of "unlink src w'" "archived @ [i]"] by simp
      then show ?thesis using a Inr Some g by (auto intro: db_grows_trans)
    qed
  qed
qed

lemma backfill_grows: "db_grows (db w) (db (snd (archive_only_from_old_incoming st w)))"
proof -
  have "db_grows (db w) (db (snd (sweep st pngs [] (ensure_dirs_for_station (key st) w))))" for pngs
    using sweep_grows[of "ensure_dirs_for_station (key st) w" st pngs "[]"] by simp
  then show ?thesis
    unfolding archive_only_from_old_incoming_def Let_def
    by (simp add: case_prod_beta)
qed

lemma mirror_all_grows: "db_grows (db w) (db (snd (mirror_all sts created w)))"
proof (induction sts arbitrary: created w)
  case Nil
  show ?case by simp
next
  case (Cons st sts)
  obtain r w' where a: "mirror_current_and_archive st w = (r, w')"
    by (cases "mirror_current_and_archive st w")
  have g: "db_grows (db w) (db w')" using mirror_grows[of w st] a by simp
  show ?case using a g Cons.IH[of w']
    by (auto split: sum.split option.split intro: db_grows_trans)
qed

lemma backfill_all_grows: "db_grows (db w) (db (snd (backfill_all sts archived w)))"
proof (induction sts arbitrary: archived w)
  case Nil
  show ?case by simp
next
  case (Cons st sts)
  obtain r w' where a: "archive_only_from_old_incoming st w = (r, w')"
    by (cases "archive_only_from_old_incoming st w")
  have g: "db_grows (db w) (db w')" using backfill_grows[of w st] a by simp
  show ?case using a g Cons.IH[of w']
    by (auto split: sum.split option.split intro: db_grows_trans)
qed

lemma scan_grows: "db_grows (db w) (db (snd (scan_cmd w)))"
proof -
  obtain r w' where a: "mirror_all STATIONS [] w = (r, w')" by (cases "mirror_all STATIONS [] w")
  obtain r2 w2 where b: "backfill_all STATIONS [] w' = (r2, w2)"
    by (cases "backfill_all STATIONS [] w'")
  have "db_grows (db w) (db w')" using mirror_all_grows[of w STATIONS "[]"] a by simp
  moreover have "db_grows (db w') (db w2)" using backfill_all_grows[of w' STATIONS "[]"] b by simp
  ultimately have "db_grows (db w) (db w2)" by (rule db_grows_trans)
  then show ?thesis using a b \<open>db_grows (db w) (db w')\<close>
    by (auto simp: scan_cmd_def split: sum.split)
qed

lemma conflicts_key: "conflicts n old \<longleftrightarrow> row_key old = row_key n"
  by (auto simp: conflicts_def row_key_def)

lemma do_update_key [simp]: "row_key (do_update n old) = row_key old"
  by (simp add: do_update_def row_key_def)

lemma keys_upsert:
  "map row_key (upsert n rows) =
     (if row_key n \<in> set (map row_key rows) then map row_key rows else map row_key rows @ [row_key n])"
proof -
  have "(\<exists>old\<in>set rows. conflicts n old) \<longleftrightarrow> row_key n \<in> set (map row_key rows)"
    by (auto simp: conflicts_key image_iff) metis
  moreover have "map row_key (map (\<lambda>old. if conflicts n old then do_update n old else old) rows)
      = map row_key rows"
    by (induction rows) auto
  ultimately show ?thesis by (simp add: upsert_def)
qed

lemma distinct_upsert:
  "distinct (map row_key rows) \<Longrightarrow> distinct (map row_key (upsert n rows))"
  by (simp add: keys_upsert)

lemma distinct_fold_upsert:
  "distinct (map row_key rows) \<Longrightarrow> distinct (map row_key (fold upsert news rows))"
  by (induction news arbitrary: rows) (simp_all add: distinct_upsert)

lemma length_filter_le_1_iff:
  "(\<forall>k. length (filter (\<lambda>x. f x = k) xs) \<le> 1) \<longleftrightarrow> distinct (map f xs)"
proof (induction xs)
  case Nil
  show ?case by simp
next
  case (Cons x xs)
  show ?case
  proof
    assume a: "\<forall>k. length (filter (\<lambda>y. f y = k) (x # xs)) \<le> 1"
    then have "\<forall>k. length (filter (\<lambda>y. f y = k) xs) \<le> 1"
      by (metis (mono_tags, lifting) Suc_leD filter.simps(2) length_Cons)
    then have d: "distinct (map f xs)" using Cons.IH by simp
    from a have "length (filter (\<lambda>y. f y = f x) (x # xs)) \<le> 1" by blast
    then have "filter (\<lambda>y. f y = f x) xs = []" by simp
    then have "f x \<notin> f ` set xs" by (force simp: filter_empty_conv)
    with d show "distinct (map f (x # xs))" by simp
  next
    assume "distinct (map f (x # xs))"
    then have n: "f x \<notin> f ` set xs" and d: "distinct (map f xs)" by auto
    from d Cons.IH have le: "\<And>k. length (filter (\<lambda>y. f y = k) xs) \<le> 1" by simp
    from n have e: "filter (\<lambda>y. f y = f x) xs = []"
      by (auto simp: filter_empty_conv image_iff)
    show "\<forall>k. length (filter (\<lambda>y. f y = k) (x # xs)) \<le> 1"
      using le e by auto
  qed
qed

lemma catalog_unique_iff:
  "catalog_unique w \<longleftrightarrow> (case db w of None \<Rightarrow> True | Some rows \<Rightarrow> distinct (map row_key rows))"
proof (cases "db w")
  case None
  then show ?thesis by (simp add: catalog_unique_def records_for_def)
next
  case (Some rows)
  have "(\<forall>S D. length (filter (\<lambda>r. station_key r = S \<and> date r = D) rows) \<le> 1)
      \<longleftrightarrow> (\<forall>k. length (filter (\<lambda>r. row_key r = k) rows) \<le> 1)"
    by (simp add: row_key_def prod_eq_iff)
  then show ?thesis using Some length_filter_le_1_iff[of row_key rows]
    by (simp add: catalog_unique_def records_for_def)
qed

lemma grows_unique:
  "db_grows (db w) (db w') \<Longrightarrow> catalog_unique w \<Longrightarrow> catalog_unique w'"
  by (auto simp: catalog_unique_iff db_grows_def distinct_fold_upsert split: option.splits)

lemma exec_grows_or_init:
  "catalog_unique w \<Longrightarrow> catalog_unique (exec op w)"
proof (cases op)
  case Init_db
  assume "catalog_unique w"
  then show ?thesis using Init_db by (auto simp: init_db_cmd_def catalog_unique_iff split: option.splits)
next
  case (External fs ds)
  assume "catalog_unique w"
  then show ?thesis using External by (simp add: catalog_unique_iff)
qed (auto intro: grows_unique mirror_grows archive_file_grows backfill_grows scan_grows)

lemma run_unique: "catalog_unique w \<Longrightarrow> catalog_unique (run ops w)"
  unfolding run_def by (induction ops arbitrary: w) (simp_all add: exec_grows_or_init)

text \<open>
  C1. For every station key \<open>S\<close> and day \<open>D\<close>: when the catalog holds at most one
  record per (station key, day), as the empty and the missing table do, it still does
  after any sequence of scans, mirrorings, archivings and backfill sweeps, whatever
  happens to the files in between.
\<close>

theorem one_record_per_station_and_day:
  assumes "catalog_unique w"
  shows "length (records_for S D (run ops w)) \<le> 1"
  using run_unique[OF assms, of ops] by (simp add: catalog_unique_def)

theorem one_record_per_station_and_day_witness:
  "catalog_unique demo_world \<and>
   length (records_for ''simone_piura'' ''2024-03-01''
     (run [Scan, External (files demo_world) {}, Mirror (STATIONS ! 3), Scan] demo_world)) \<le> 1"
proof -
  have h: "catalog_unique demo_world"
    by (simp add: catalog_unique_def records_for_def demo_world_def)
  show ?thesis using h one_record_per_station_and_day[OF h] by simp
qed

section \<open>One archived file\<close>

lemma do_update_conflict: "conflicts n old \<Longrightarrow> do_update n old = n"
  by (cases n, cases old) (simp add: conflicts_def do_update_def)

lemma upsert_replace:
  "upsert n rows =
     (if row_key n \<in> row_key ` set rows
      then map (\<lambda>old. if row_key old = row_key n then n else old) rows
      else rows @ [n])"
proof -
  have a: "(\<exists>old\<in>set rows. conflicts n old) \<longleftrightarrow> row_key n \<in> row_key ` set rows"
    by (auto simp: conflicts_key image_iff) metis
  have b: "(if conflicts n old then do_update n old else old)
      = (if row_key old = row_key n then n else old)" for old
    by (simp add: do_update_conflict conflicts_key)
  show ?thesis unfolding upsert_def a b by simp
qed

lemma upsert_same_key: "set (filter (\<lambda>r. row_key r = row_key n) (upsert n rows)) = {n}"
  by (auto simp: upsert_replace image_iff)


lemma records_for_key:
  "records_for S D w =
     (case db w of None \<Rightarrow> [] | Some rows \<Rightarrow> filter (\<lambda>r. row_key r = (S, D)) rows)"
  by (cases "db w") (simp_all add: records_for_def row_key_def)

lemma row_key_row_for [simp]: "row_key (row_for st ymd src) = (key st, strftime_ymd ymd)"
  by (simp add: row_key_def row_for_def)


lemma archive_file_success:
  assumes "map_of (files w) src = Some f"
    and "fromtimestamp_utc (mtime f) = Inr ymd"
    and "readable f"
    and "db w = Some rows"
    and "src \<noteq> archive_dst_for st ymd src"
  shows "fst (archive_file src st w) = Inr (Some (info_for st ymd src)) \<and>
    map_of (files (snd (archive_file src st w))) (archive_dst_for st ymd src) = Some f \<and>
    set (records_for (key st) (strftime_ymd ymd) (snd (archive_file src st w)))
      = {row_for st ymd src}"
  using assms upsert_same_key[of "row_for st ymd src" rows]
  by (simp add: archive_file_ok update_conv' records_for_key)


lemma civil_19783: "civil_from_days 19783 = (2024, 3, 1)"
  by code_simp

lemma strftime_2024_03_01: "strftime_ymd (2024, 3, 1) = ''2024-03-01''"
  by (simp add: strftime_ymd_def pad4_def pad2_def digit_def)


section \<open>Mirroring\<close>

lemma ensure_eq: "ensure_dirs_for_station k w = w\<lparr>dirs := dirs w \<union> station_dirs k\<rparr>"
  by (rule world.equality) (simp_all add: dirs_ensure)

lemma ensure_idem [simp]:
  "ensure_dirs_for_station k (ensure_dirs_for_station k w) = ensure_dirs_for_station k w"
  by (rule world.equality) (auto simp: dirs_ensure)

lemma ensure_files_update:
  "ensure_dirs_for_station k (w\<lparr>files := fs\<rparr>) = (ensure_dirs_for_station k w)\<lparr>files := fs\<rparr>"
  by (rule world.equality) (simp_all add: dirs_ensure)

lemma archive_file_ensure [simp]:
  "archive_file src st (ensure_dirs_for_station (key st) w) = archive_file src st w"
  by (simp add: archive_file_def)

lemma long_not_station_dir: "2 < length p \<Longrightarrow> p \<notin> station_dirs k"
  by (auto simp: station_dirs_def INCOMING_DIR_def CURRENT_DIR_def ARCHIVE_DIR_def
      OLD_INCOMING_DIR_def)

lemma incoming_not_station_dir [simp]: "incoming_path st \<notin> station_dirs k"
  by (rule long_not_station_dir) (simp add: incoming_path_def INCOMING_DIR_def)

lemma current_not_station_dir [simp]: "current_path st \<notin> station_dirs k"
  by (rule long_not_station_dir) (simp add: current_path_def CURRENT_DIR_def)

lemma path_exists_ensure:
  "path_exists (ensure_dirs_for_station k w) p \<longleftrightarrow> path_exists w p \<or> p \<in> station_dirs k"
  by (auto simp: path_exists_def dirs_ensure)

lemma stat_mtime_ensure [simp]: "stat_mtime (ensure_dirs_for_station k w) p = stat_mtime w p"
  by (simp add: stat_mtime_def)

lemma is_newer_ensure:
  "cur \<notin> station_dirs k \<Longrightarrow>
   is_newer_than_current (ensure_dirs_for_station k w) src cur = is_newer_than_current w src cur"
  by (simp add: is_newer_than_current_def path_exists_ensure split: sum.split)

lemma incoming_ne_current [simp]: "incoming_path st \<noteq> current_path st'"
  by (simp add: incoming_path_def current_path_def INCOMING_DIR_def CURRENT_DIR_def)

lemma incoming_not_in_archive [simp]: "\<not> in_archive (incoming_path st)"
  by (simp add: in_archive_def incoming_path_def INCOMING_DIR_def ARCHIVE_DIR_def)

lemma current_not_in_archive [simp]: "\<not> in_archive (current_path st)"
  by (simp add: in_archive_def current_path_def CURRENT_DIR_def ARCHIVE_DIR_def)

lemma current_parent_ensured:
  "butlast (current_path st) \<in> dirs (ensure_dirs_for_station (key st) w)"
  by (simp add: dirs_ensure station_dirs_def current_path_def CURRENT_DIR_def)

lemma mirror_missing:
  "\<not> path_exists w (incoming_path st) \<Longrightarrow>
   mirror_current_and_archive st w = (Inr None, ensure_dirs_for_station (key st) w)"
  by (simp add: mirror_current_and_archive_def path_exists_ensure)

lemma mirror_file:
  assumes f: "map_of (files w) (incoming_path st) = Some f"
  shows "mirror_current_and_archive st w =
    (if is_newer_than_current w (incoming_path st) (current_path st)
     then (if readable f
           then archive_file (incoming_path st) st
                  (w\<lparr>files := AList.update (current_path st) f (files w)\<rparr>)
           else (Inl PermissionError, ensure_dirs_for_station (key st) w))
     else archive_file (incoming_path st) st w)"
proof -
  let ?w1 = "ensure_dirs_for_station (key st) w"
  have ex: "path_exists ?w1 (incoming_path st)"
    using f by (simp add: path_exists_def)
  have cp: "copy2 (incoming_path st) (current_path st) ?w1 =
      (if readable f then Inr (?w1\<lparr>files := AList.update (current_path st) f (files w)\<rparr>)
       else Inl PermissionError)"
    using f current_parent_ensured[of st w] by (simp add: copy2_def)
  have e: "archive_file (incoming_path st) st
        (?w1\<lparr>files := AList.update (current_path st) f (files w)\<rparr>)
      = archive_file (incoming_path st) st
          (w\<lparr>files := AList.update (current_path st) f (files w)\<rparr>)"
    using archive_file_ensure[of "incoming_path st" st
        "w\<lparr>files := AList.update (current_path st) f (files w)\<rparr>"]
    by (simp add: ensure_files_update)
  show ?thesis
    unfolding mirror_current_and_archive_def Let_def
    by (simp add: ex cp e is_newer_ensure)
qed

lemma mirror_current:
  assumes f: "map_of (files w) (incoming_path st) = Some f"
  shows "map_of (files (snd (mirror_current_and_archive st w))) (current_path st) =
    (if is_newer_than_current w (incoming_path st) (current_path st) \<and> readable f
     then Some f else map_of (files w) (current_path st))"
  by (simp add: mirror_file[OF f] archive_file_lookup update_conv')

lemma is_newer_iff:
  "is_newer_than_current w src cur \<longleftrightarrow>
     \<not> path_exists w cur \<or>
     (\<exists>s c. map_of (files w) src = Some s \<and> map_of (files w) cur = Some c \<and> mtime c < mtime s)"
  by (auto simp: is_newer_than_current_def stat_mtime_def path_exists_def
      split: option.splits sum.splits)

text \<open>
  C6. When the incoming file of a station exists, can be read, has a modification time
  \<open>datetime\<close> accepts and the table is in place, \<open>mirror_current_and_archive\<close> returns the
  dictionary of the archived file, the archive holds the copy and the catalog records of
  (station key, day) are the row of this file: in every world, that is whether or not the
  file was promoted to \<open>current\<close>, and what \<open>_archive_file\<close> alone does with it.
\<close>

theorem mirror_archives_in_both_branches:
  assumes "map_of (files w) (incoming_path st) = Some f"
    and "fromtimestamp_utc (mtime f) = Inr ymd"
    and "readable f"
    and "db w = Some rows"
  shows "fst (mirror_current_and_archive st w) = Inr (Some (info_for st ymd (incoming_path st))) \<and>
    fst (mirror_current_and_archive st w) = fst (archive_file (incoming_path st) st w) \<and>
    map_of (files (snd (mirror_current_and_archive st w)))
      (archive_dst_for st ymd (incoming_path st)) = Some f \<and>
    set (records_for (key st) (strftime_ymd ymd) (snd (mirror_current_and_archive st w)))
      = {row_for st ymd (incoming_path st)}"
proof -
  let ?src = "incoming_path st"
  have ne: "?src \<noteq> archive_dst_for st ymd ?src"
    by (rule not_in_archive_ne) simp
  have plain: "fst (archive_file ?src st w) = Inr (Some (info_for st ymd ?src)) \<and>
      map_of (files (snd (archive_file ?src st w))) (archive_dst_for st ymd ?src) = Some f \<and>
      set (records_for (key st) (strftime_ymd ymd) (snd (archive_file ?src st w)))
        = {row_for st ymd ?src}"
    using assms ne by (rule archive_file_success)
  show ?thesis
  proof (cases "is_newer_than_current w ?src (current_path st)")
    case False
    then show ?thesis using plain by (simp add: mirror_file[OF assms(1)])
  next
    case True
    let ?w = "w\<lparr>files := AList.update (current_path st) f (files w)\<rparr>"
    have f': "map_of (files ?w) ?src = Some f"
      using assms(1) by (simp add: update_conv')
    have d': "db ?w = Some rows" using assms(4) by simp
    have "fst (archive_file ?src st ?w) = Inr (Some (info_for st ymd ?src)) \<and>
      map_of (files (snd (archive_file ?src st ?w))) (archive_dst_for st ymd ?src) = Some f \<and>
      set (records_for (key st) (strftime_ymd ymd) (snd (archive_file ?src st ?w)))
        = {row_for st ymd ?src}"
      using f' assms(2,3) d' ne by (rule archive_file_success)
    then show ?thesis using True plain assms(3) by (simp add: mirror_file[OF assms(1)])
  qed
qed

theorem mirror_archives_in_both_branches_witness:
  "\<not> is_newer_than_current newer_current_world (incoming_path simone_piura)
       (current_path simone_piura) \<and>
   fst (mirror_current_and_archive simone_piura newer_current_world) =
     Inr (Some \<lparr>info_key = ''simone_piura'', info_date = ''2024-03-01'',
       info_archive = ''archive/simone_piura/2024/03/01/multilink_overview_simone-peru2.png''\<rparr>)"
proof -
  let ?f = "\<lparr>mtime = 1709337000, content = ''A'', readable = True\<rparr>"
  have a: "map_of (files newer_current_world) (incoming_path simone_piura) = Some ?f"
    by (simp add: newer_current_world_def demo_world_def incoming_path_def simone_piura_def
        INCOMING_DIR_def)
  have c: "map_of (files newer_current_world) (current_path simone_piura)
      = Some \<lparr>mtime = 1709337600, content = ''N'', readable = True\<rparr>"
    by (simp add: newer_current_world_def demo_world_def current_path_def simone_piura_def
        CURRENT_DIR_def)
  have n: "\<not> is_newer_than_current newer_current_world (incoming_path simone_piura)
       (current_path simone_piura)"
    by (simp add: is_newer_than_current_def path_exists_def stat_mtime_def a c)
  have b: "db newer_current_world = Some []"
    by (simp add: newer_current_world_def demo_world_def)
  have t: "fromtimestamp_utc (mtime ?f) = Inr (2024, 3, 1)"
    using civil_19783 by (simp add: fromtimestamp_utc_def)
  have r: "readable ?f" by simp
  have i: "info_for simone_piura (2024, 3, 1) (incoming_path simone_piura) =
      \<lparr>info_key = ''simone_piura'', info_date = ''2024-03-01'',
       info_archive = ''archive/simone_piura/2024/03/01/multilink_overview_simone-peru2.png''\<rparr>"
    by (simp add: info_for_def strftime_2024_03_01 archive_dst_for_def archive_dir_for_def
        ARCHIVE_DIR_def name_def incoming_path_def simone_piura_def pad4_def pad2_def digit_def)
  have "fst (mirror_current_and_archive simone_piura newer_current_world) =
      Inr (Some (info_for simone_piura (2024, 3, 1) (incoming_path simone_piura)))"
    using mirror_archives_in_both_branches[OF a t r b] by (rule conjunct1)
  then show ?thesis using n by (simp only: i simp_thms)
qed

section \<open>Missing sources\<close>

text \<open>
  C9, as the code has it. When nothing is at the source path, also after the station's
  directories were made, \<open>_archive_file\<close> returns \<open>None\<close>; when the incoming file of a
  station is absent, \<open>mirror_current_and_archive\<close> returns \<open>None\<close>. Neither copies a file
  nor writes the catalog: the world afterwards differs from the one before in one thing
  only, the directories of the station exist.
\<close>

theorem missing_source_only_makes_directories:
  "(\<not> path_exists w src \<and> src \<notin> station_dirs (key st) \<longrightarrow>
      archive_file src st w = (Inr None, w\<lparr>dirs := dirs w \<union> station_dirs (key st)\<rparr>)) \<and>
   (\<not> path_exists w (incoming_path st) \<longrightarrow>
      mirror_current_and_archive st w =
        (Inr None, w\<lparr>dirs := dirs w \<union> station_dirs (key st)\<rparr>))"
proof -
  have "archive_file src st w = (Inr None, ensure_dirs_for_station (key st) w)"
    if "\<not> path_exists w src" and "src \<notin> station_dirs (key st)"
    using that by (simp add: archive_file_missing path_exists_ensure)
  then show ?thesis by (simp add: mirror_missing ensure_eq[symmetric])
qed

theorem missing_source_only_makes_directories_witness:
  "\<not> path_exists fresh_world [''incoming'', ''simone_piura'', ''x.png''] \<and>
   [''incoming'', ''simone_piura'', ''x.png''] \<notin> station_dirs (key simone_piura) \<and>
   \<not> path_exists fresh_world (incoming_path simone_piura) \<and>
   fst (archive_file [''incoming'', ''simone_piura'', ''x.png''] simone_piura fresh_world)
     = Inr None \<and>
   files (snd (archive_file [''incoming'', ''simone_piura'', ''x.png''] simone_piura fresh_world))
     = [] \<and>
   db (snd (archive_file [''incoming'', ''simone_piura'', ''x.png''] simone_piura fresh_world))
     = Some [] \<and>
   fst (mirror_current_and_archive simone_piura fresh_world) = Inr None \<and>
   files (snd (mirror_current_and_archive simone_piura fresh_world)) = [] \<and>
   db (snd (mirror_current_and_archive simone_piura fresh_world)) = Some []"
proof -
  have a: "\<not> path_exists fresh_world [''incoming'', ''simone_piura'', ''x.png'']"
    by (simp add: path_exists_def fresh_world_def)
  have b: "[''incoming'', ''simone_piura'', ''x.png''] \<notin> station_dirs (key simone_piura)"
    by (rule long_not_station_dir) simp
  have c: "\<not> path_exists fresh_world (incoming_path simone_piura)"
    by (simp add: path_exists_def fresh_world_def)
  show ?thesis
    using missing_source_only_makes_directories
      [of fresh_world "[''incoming'', ''simone_piura'', ''x.png'']" simone_piura] a b c
    by (simp add: fresh_world_def)
qed

text \<open>
  The claim as it is written fails on a fresh data directory: the incoming file is
  absent, and after \<open>mirror_current_and_archive\<close> the world is another one, since
  \<open>_ensure_dirs_for_station\<close> ran before the file was looked for.
\<close>

theorem mirror_missing_changes_state_counterexample:
  "\<not> path_exists fresh_world (incoming_path simone_piura) \<and>
   snd (mirror_current_and_archive simone_piura fresh_world) \<noteq> fresh_world \<and>
   [''incoming'', ''simone_piura''] \<in> dirs (snd (mirror_current_and_archive simone_piura fresh_world)) \<and>
   [''incoming'', ''simone_piura''] \<notin> dirs fresh_world"
proof -
  have c: "\<not> path_exists fresh_world (incoming_path simone_piura)"
    by (simp add: path_exists_def fresh_world_def)
  have d: "[''incoming'', ''simone_piura'']
      \<in> dirs (snd (mirror_current_and_archive simone_piura fresh_world))"
    using c
    by (simp add: mirror_missing dirs_ensure station_dirs_def INCOMING_DIR_def simone_piura_def)
  have e: "[''incoming'', ''simone_piura''] \<notin> dirs fresh_world"
    by (simp add: fresh_world_def)
  from d e have "snd (mirror_current_and_archive simone_piura fresh_world) \<noteq> fresh_world"
    by auto
  then show ?thesis using c d e by simp
qed

section \<open>The backfill sweep returns a list\<close>

lemma old_incoming_dir_ensured:
  "path_exists (ensure_dirs_for_station k w) (OLD_INCOMING_DIR @ [k])"
  by (simp add: path_exists_def dirs_ensure station_dirs_def)

lemma backfill_some:
  "fst (archive_only_from_old_incoming st w) =
     Inr (Some (fst (sweep st
       (old_incoming_pngs (ensure_dirs_for_station (key st) w) (OLD_INCOMING_DIR @ [key st]))
       [] (ensure_dirs_for_station (key st) w))))"
  by (simp add: archive_only_from_old_incoming_def old_incoming_dir_ensured case_prod_beta Let_def)

lemma backfill_all_returns: "\<exists>archived_old. fst (backfill_all sts acc w) = Inr archived_old"
proof (induction sts arbitrary: acc w)
  case Nil
  show ?case by simp
next
  case (Cons st sts)
  obtain r w' where a: "archive_only_from_old_incoming st w = (r, w')"
    by (cases "archive_only_from_old_incoming st w")
  then obtain l where r: "r = Inr (Some l)"
    using backfill_some[of st w] by simp
  show ?case using Cons.IH[of "acc @ l" w'] by (simp add: a r)
qed

text \<open>
  C10. \<open>archive_only_from_old_incoming\<close> always returns a list: the directory it looks
  for exists, since \<open>_ensure_dirs_for_station\<close> has just made it, so the branch that
  returns \<open>None\<close> is never taken; and the second loop of \<open>scan\<close>, which extends its list
  by each result, never fails.
\<close>

theorem backfill_never_returns_none:
  "path_exists (ensure_dirs_for_station (key st) w) (OLD_INCOMING_DIR @ [key st]) \<and>
   (\<exists>archived. fst (archive_only_from_old_incoming st w) = Inr (Some archived)) \<and>
   (\<exists>archived_old. fst (backfill_all STATIONS [] w) = Inr archived_old)"
  using backfill_all_returns[of STATIONS "[]" w]
  by (simp add: old_incoming_dir_ensured backfill_some)

theorem backfill_never_returns_none_witness:
  "path_exists (ensure_dirs_for_station ''simone_piura'' demo_world)
     [''old incoming'', ''simone_piura''] \<and>
   (\<exists>archived. fst (archive_only_from_old_incoming simone_piura demo_world)
      = Inr (Some archived))"
  using backfill_never_returns_none[of simone_piura demo_world]
  by (simp add: simone_piura_def OLD_INCOMING_DIR_def)

lemma filter_update_other:
  "(\<And>v. \<not> P (k, v)) \<Longrightarrow> filter P (AList.update k v al) = filter P al"
  by (induction al) auto


lemma archive_file_filter:
  assumes "\<And>p f. in_archive p \<Longrightarrow> \<not> P (p, f)"
  shows "filter P (files (snd (archive_file src st w))) = filter P (files w)"
  using archive_file_files[of src st w] assms
  by (auto simp: filter_update_other)













lemma glob_png_ensure [simp]: "glob_png (ensure_dirs_for_station k w) d = glob_png w d"
  by (simp add: glob_png_def)

lemma old_incoming_pngs_ensure [simp]:
  "old_incoming_pngs (ensure_dirs_for_station k w) d = old_incoming_pngs w d"
  by (simp add: old_incoming_pngs_def)


lemma set_old_incoming_pngs:
  "set (old_incoming_pngs w d) = fst ` set (glob_png w d)"
  by (simp add: old_incoming_pngs_def)





lemma backfill_eq:
  "archive_only_from_old_incoming st w =
    (Inr (Some (fst (sweep st (old_incoming_pngs w (OLD_INCOMING_DIR @ [key st])) []
        (ensure_dirs_for_station (key st) w)))),
     snd (sweep st (old_incoming_pngs w (OLD_INCOMING_DIR @ [key st])) []
        (ensure_dirs_for_station (key st) w)))"
  by (simp add: archive_only_from_old_incoming_def old_incoming_dir_ensured case_prod_beta
      Let_def)


text \<open>
  Whether \<open>_archive_file\<close> raises on a file outside the archive, and what it returns,
  depends on the file and on the presence of the table only: so it is the same at the
  start of a sweep and at the file's turn.
\<close>

lemma archive_file_fst_stable:
  assumes "map_of (files w) p = Some f" and "map_of (files w') p = Some f"
    and "db w = None \<longleftrightarrow> db w' = None" and "\<not> in_archive p"
  shows "fst (archive_file p st w') = fst (archive_file p st w)"
  using archive_file_fst[OF assms(1,4), of st] archive_file_fst[OF assms(2,4), of st] assms(3)
  by simp







lemma row_key_row_of [simp]: "row_key (row_of st w p) = (key st, day_of w p)"
  by (simp add: row_of_def day_of_def)





lemma key_simone_piura [simp]: "key simone_piura = ''simone_piura''"
  by (simp add: simone_piura_def)





lemma old_incoming_3_not_in_archive [simp]: "\<not> in_archive [''old incoming'', k, n]"
  by (simp add: in_archive_def ARCHIVE_DIR_def)






lemma mset_insert_row [simp]: "mset (insert_row r rs) = add_mset r (mset rs)"
  by (induction rs) simp_all

lemma mset_sort_rows [simp]: "mset (sort_rows rs) = mset rs"
  by (induction rs) (simp_all add: sort_rows_def)

lemma set_insert_row [simp]: "set (insert_row r rs) = insert r (set rs)"
  by (induction rs) auto

lemma order_by_total: "order_by r r' \<or> order_by r' r"
  by (auto simp: order_by_def)

lemma sorted_insert_row:
  "sorted_wrt order_by rs \<Longrightarrow> sorted_wrt order_by (insert_row r rs)"
proof (induction rs)
  case Nil
  show ?case by simp
next
  case (Cons r' rs)
  have t: "order_by r x" if "order_by r r'" and "order_by r' x" for x
    using that by (auto simp: order_by_def)
  show ?case
  proof (cases "order_by r r'")
    case True
    then show ?thesis using Cons.prems t by auto
  next
    case False
    then have "order_by r' r" using order_by_total by blast
    then show ?thesis using False Cons by auto
  qed
qed

lemma sorted_sort_rows: "sorted_wrt order_by (sort_rows rs)"
  by (induction rs) (simp_all add: sort_rows_def sorted_insert_row)

lemma strip_examples:
  "strip [] = []" "strip '' Peru'' = ''Peru''" "strip ''Peru'' = ''Peru''"
  "strip ''2024-03-01'' = ''2024-03-01''"
  by code_simp+

text \<open>
  C8, as the code has it. When the table exists, \<open>search\<close> returns the selected columns
  of exactly the catalog records (each as often as the table holds it) that match the
  three filters after white space was stripped from both ends of each: a filter that is
  then empty, or absent, matches every record, any other one the records whose column
  equals the stripped filter; the result is ordered by date descending and, for equal
  dates, by station ascending.
\<close>

theorem search_returns_sorted_matches:
  assumes "db w = Some rows"
  shows "\<exists>rs. search c s d w = Inr (map select_columns rs) \<and>
    mset rs = mset (filter (\<lambda>r.
        exact_filter (Some (strip (args_get c))) (row_country r) \<and>
        exact_filter (Some (strip (args_get s))) (row_station r) \<and>
        exact_filter (Some (strip (args_get d))) (date r)) rows) \<and>
    sorted_wrt (\<lambda>r r'. date r' < date r \<or> (date r = date r' \<and> row_station r \<le> row_station r')) rs"
proof -
  let ?m = "where_clause (strip (args_get c)) (strip (args_get s)) (strip (args_get d))"
  have w: "?m = (\<lambda>r. exact_filter (Some (strip (args_get c))) (row_country r) \<and>
        exact_filter (Some (strip (args_get s))) (row_station r) \<and>
        exact_filter (Some (strip (args_get d))) (date r))"
    by (rule ext) (simp add: where_clause_def exact_filter_def)
  have o: "order_by = (\<lambda>r r'. date r' < date r \<or> (date r = date r' \<and> row_station r \<le> row_station r'))"
    by (intro ext) (simp add: order_by_def)
  have "search c s d w = Inr (map select_columns (sort_rows (filter ?m rows)))"
    using assms by (simp add: search_def)
  moreover have "mset (sort_rows (filter ?m rows)) = mset (filter ?m rows)" by simp
  moreover have "sorted_wrt order_by (sort_rows (filter ?m rows))" by (rule sorted_sort_rows)
  ultimately show ?thesis unfolding w o by blast
qed

theorem search_returns_sorted_matches_witness:
  "db peru_world = Some [peru_row] \<and>
   (\<exists>rs. search (Some '' Peru'') None (Some ''2024-03-01'') peru_world
            = Inr (map select_columns rs) \<and>
         mset rs = {#peru_row#})"
proof -
  have a: "db peru_world = Some [peru_row]" by (simp add: peru_world_def)
  have f: "filter (\<lambda>r.
        exact_filter (Some (strip (args_get (Some '' Peru'')))) (row_country r) \<and>
        exact_filter (Some (strip (args_get None))) (row_station r) \<and>
        exact_filter (Some (strip (args_get (Some ''2024-03-01'')))) (date r)) [peru_row]
      = [peru_row]"
    by (simp add: args_get_def strip_examples exact_filter_def peru_row_def)
  from search_returns_sorted_matches[OF a, of "Some '' Peru''" None "Some ''2024-03-01''"]
  show ?thesis unfolding f using a by auto
qed

text \<open>
  The claim as it is written fails for a filter with a blank before the name: no record
  has the country \<open>'' Peru''\<close>, and yet the search for it returns the record of Peru.
\<close>

theorem search_trims_filters_counterexample:
  "\<not> exact_filter (Some '' Peru'') (row_country peru_row) \<and>
   search (Some '' Peru'') None None peru_world = Inr [select_columns peru_row]"
  by (simp add: exact_filter_def peru_row_def search_def args_get_def strip_examples
      peru_world_def where_clause_def sort_rows_def)

lemma in_archive_take: "in_archive p \<Longrightarrow> 0 < n \<Longrightarrow> in_archive (take n p)"
  by (cases n) (auto simp: in_archive_def ARCHIVE_DIR_def take_Suc split: list.splits)

lemma in_archive_dir_for [simp]: "in_archive (archive_dir_for st ymd)"
  by (cases ymd) (simp add: in_archive_def archive_dir_for_def ARCHIVE_DIR_def)

lemma dirs_mkdir_archive:
  "station_file p \<Longrightarrow>
   p \<in> dirs (mkdir_parents (archive_dir_for st ymd) w) \<longleftrightarrow> p \<in> dirs w"
  using in_archive_take[OF in_archive_dir_for[of st ymd]]
  by (auto simp: mkdir_parents_def station_file_def)

lemma dirs_ensure_station_file:
  "station_file p \<Longrightarrow> p \<in> dirs (ensure_dirs_for_station k w) \<longleftrightarrow> p \<in> dirs w"
  using long_not_station_dir[of p k] by (auto simp: dirs_ensure station_file_def)

lemma archive_file_dirs_frame:
  "station_file p \<Longrightarrow> p \<in> dirs (snd (archive_file src st w)) \<longleftrightarrow> p \<in> dirs w"
  by (cases "map_of (files w) src")
    (auto simp: archive_file_file archive_file_not_file Let_def dirs_mkdir_archive
      dirs_ensure_station_file split: sum.split option.split)

lemma archive_file_distinct:
  "distinct (map fst (files w)) \<Longrightarrow> distinct (map fst (files (snd (archive_file src st w))))"
  using archive_file_files[of src st w] by (auto simp: distinct_update)

lemma mirror_not_file:
  assumes "map_of (files w) (incoming_path st) = None"
  shows "snd (mirror_current_and_archive st w) = ensure_dirs_for_station (key st) w"
    and "fst (mirror_current_and_archive st w) =
      (if incoming_path st \<in> dirs w then Inl FileNotFoundError else Inr None)"
proof -
  have c: "copy2 (incoming_path st) (current_path st) (ensure_dirs_for_station (key st) w)
      = Inl FileNotFoundError"
    using assms by (simp add: copy2_def)
  have a: "archive_file (incoming_path st) st w =
      (if incoming_path st \<in> dirs w then Inl FileNotFoundError else Inr None,
       ensure_dirs_for_station (key st) w)"
    using assms by (simp add: archive_file_not_file)
  have e: "path_exists (ensure_dirs_for_station (key st) w) (incoming_path st)
      \<longleftrightarrow> incoming_path st \<in> dirs w"
    using assms by (simp add: path_exists_ensure) (simp add: path_exists_def)
  show "snd (mirror_current_and_archive st w) = ensure_dirs_for_station (key st) w"
    unfolding mirror_current_and_archive_def Let_def by (simp add: c a e)
  show "fst (mirror_current_and_archive st w) =
      (if incoming_path st \<in> dirs w then Inl FileNotFoundError else Inr None)"
    unfolding mirror_current_and_archive_def Let_def by (simp add: c a e)
qed

text \<open>The files after \<open>mirror_current_and_archive\<close>.\<close>

lemma mirror_files:
  "files (snd (mirror_current_and_archive st w)) =
     files (snd (archive_file (incoming_path st) st
       (if promotable st w
        then w\<lparr>files := AList.update (current_path st)
               (the (map_of (files w) (incoming_path st))) (files w)\<rparr>
        else w)))"
proof (cases "map_of (files w) (incoming_path st)")
  case None
  then show ?thesis
    by (simp add: mirror_not_file promotable_def archive_file_not_file)
next
  case (Some f)
  then show ?thesis
    by (simp add: mirror_file[OF Some] promotable_def archive_file_file fromtimestamp_utc_def
        Let_def)
qed

lemma mirror_lookup:
  assumes "\<not> in_archive q"
  shows "map_of (files (snd (mirror_current_and_archive st w))) q =
    (if promotable st w \<and> q = current_path st
     then map_of (files w) (incoming_path st) else map_of (files w) q)"
  using assms
  by (auto simp: mirror_files archive_file_lookup update_conv' promotable_def
      split: option.splits)

lemma mirror_filter:
  assumes "\<And>p f. in_archive p \<Longrightarrow> \<not> P (p, f)" and "\<And>f. \<not> P (current_path st, f)"
  shows "filter P (files (snd (mirror_current_and_archive st w))) = filter P (files w)"
  using assms by (simp add: mirror_files archive_file_filter filter_update_other)

lemma mirror_distinct:
  "distinct (map fst (files w)) \<Longrightarrow>
   distinct (map fst (files (snd (mirror_current_and_archive st w))))"
  by (simp add: mirror_files archive_file_distinct distinct_update)

lemma mirror_dirs_frame:
  "station_file p \<Longrightarrow> p \<in> dirs (snd (mirror_current_and_archive st w)) \<longleftrightarrow> p \<in> dirs w"
proof (cases "map_of (files w) (incoming_path st)")
  case None
  assume "station_file p"
  then show ?thesis by (simp add: mirror_not_file(1)[OF None] dirs_ensure_station_file)
next
  case (Some f)
  assume p: "station_file p"
  have "p \<in> dirs (snd (archive_file src st (w\<lparr>files := fs\<rparr>))) \<longleftrightarrow> p \<in> dirs w" for src fs
    using archive_file_dirs_frame[OF p, of src st "w\<lparr>files := fs\<rparr>"] by simp
  then show ?thesis
    using p by (simp add: mirror_file[OF Some] archive_file_dirs_frame dirs_ensure_station_file)
qed

lemma mirror_log [simp]: "log (snd (mirror_current_and_archive st w)) = log w"
proof (cases "map_of (files w) (incoming_path st)")
  case None
  then show ?thesis by (simp add: mirror_not_file(1))
next
  case (Some f)
  have "log (snd (archive_file src st (w\<lparr>files := fs\<rparr>))) = log w" for src fs
    using archive_file_log[of src st "w\<lparr>files := fs\<rparr>"] by simp
  then show ?thesis by (simp add: mirror_file[OF Some])
qed

lemma sweep_lookup_frame:
  "\<not> in_archive q \<Longrightarrow> q \<notin> set pngs \<Longrightarrow>
   map_of (files (snd (sweep st pngs archived w))) q = map_of (files w) q"
proof (induction pngs arbitrary: archived w)
  case Nil
  show ?case by simp
next
  case (Cons src pngs)
  obtain r w' where a: "archive_file src st w = (r, w')" by (cases "archive_file src st w")
  have l: "map_of (files w') q = map_of (files w) q"
    using archive_file_lookup[OF Cons.prems(1), of src st w] a by simp
  from Cons.prems have q: "q \<noteq> src" "q \<notin> set pngs" by auto
  show ?case
    using Cons.IH[OF Cons.prems(1) q(2)] l q(1)
    by (simp add: a delete_conv' split: sum.split option.split)
qed

lemma sweep_dirs_frame:
  "station_file p \<Longrightarrow> p \<in> dirs (snd (sweep st pngs archived w)) \<longleftrightarrow> p \<in> dirs w"
proof (induction pngs arbitrary: archived w)
  case Nil
  show ?case by simp
next
  case (Cons src pngs)
  obtain r w' where a: "archive_file src st w = (r, w')" by (cases "archive_file src st w")
  have l: "p \<in> dirs w' \<longleftrightarrow> p \<in> dirs w"
    using archive_file_dirs_frame[OF Cons.prems, of src st w] a by simp
  show ?case
    using Cons.IH[OF Cons.prems] l
    by (simp add: a split: sum.split option.split)
qed

lemma sweep_distinct:
  "distinct (map fst (files w)) \<Longrightarrow>
   distinct (map fst (files (snd (sweep st pngs archived w))))"
proof (induction pngs arbitrary: archived w)
  case Nil
  then show ?case by simp
next
  case (Cons src pngs)
  obtain r w' where a: "archive_file src st w = (r, w')" by (cases "archive_file src st w")
  have l: "distinct (map fst (files w'))"
    using archive_file_distinct[OF Cons.prems, of src st] a by simp
  show ?case
    using Cons.IH l
    by (simp add: a distinct_delete split: sum.split option.split)
qed

lemma backfill_lookup_frame:
  assumes "\<not> in_archive q"
    and "\<not> (q \<noteq> [] \<and> butlast q = OLD_INCOMING_DIR @ [key st] \<and> is_png (last q))"
  shows "map_of (files (snd (archive_only_from_old_incoming st w))) q = map_of (files w) q"
proof -
  have "q \<notin> set (old_incoming_pngs w (OLD_INCOMING_DIR @ [key st]))"
    using assms(2) by (auto simp: set_old_incoming_pngs glob_png_def)
  from sweep_lookup_frame[OF assms(1) this] show ?thesis by (simp add: backfill_eq)
qed

lemma backfill_dirs_frame:
  "station_file p \<Longrightarrow> p \<in> dirs (snd (archive_only_from_old_incoming st w)) \<longleftrightarrow> p \<in> dirs w"
  by (simp add: backfill_eq sweep_dirs_frame dirs_ensure_station_file)

lemma backfill_distinct:
  "distinct (map fst (files w)) \<Longrightarrow>
   distinct (map fst (files (snd (archive_only_from_old_incoming st w))))"
  by (simp add: backfill_eq sweep_distinct)

lemma current_not_old_incoming [simp]:
  "butlast (current_path st) \<noteq> OLD_INCOMING_DIR @ [k]"
  "butlast (incoming_path st) \<noteq> OLD_INCOMING_DIR @ [k]"
  by (simp_all add: current_path_def incoming_path_def CURRENT_DIR_def INCOMING_DIR_def
      OLD_INCOMING_DIR_def)

lemma station_file_paths [simp]:
  "station_file (current_path st)" "station_file (incoming_path st)"
  by (simp_all add: station_file_def) (simp_all add: current_path_def incoming_path_def
      CURRENT_DIR_def INCOMING_DIR_def)

lemma not_older_same: "map_of (files w') p = map_of (files w) p \<Longrightarrow> not_older p w w'"
  by (simp add: not_older_def split: option.split)

lemma not_older_trans: "not_older p w w' \<Longrightarrow> not_older p w' w'' \<Longrightarrow> not_older p w w''"
  by (auto simp: not_older_def split: option.splits)

lemma mirror_not_older:
  "not_older (current_path st) w (snd (mirror_current_and_archive st' w))"
proof (cases "promotable st' w \<and> current_path st = current_path st'")
  case False
  then have "map_of (files (snd (mirror_current_and_archive st' w))) (current_path st)
      = map_of (files w) (current_path st)"
    by (auto simp: mirror_lookup)
  then show ?thesis by (rule not_older_same)
next
  case True
  then obtain f where f: "map_of (files w) (incoming_path st') = Some f"
    and n: "is_newer_than_current w (incoming_path st') (current_path st')"
    by (auto simp: promotable_def split: option.splits)
  have l: "map_of (files (snd (mirror_current_and_archive st' w))) (current_path st) = Some f"
    using True f by (simp add: mirror_lookup)
  have "mtime c < mtime f" if "map_of (files w) (current_path st) = Some c" for c
    using n that True f by (auto simp: is_newer_iff path_exists_def)
  then show ?thesis by (auto simp: not_older_def l split: option.split)
qed

lemma mirror_all_not_older:
  "not_older (current_path st) w (snd (mirror_all sts created w))"
proof (induction sts arbitrary: created w)
  case Nil
  show ?case by (simp add: not_older_same)
next
  case (Cons st' sts)
  obtain r w' where a: "mirror_current_and_archive st' w = (r, w')"
    by (cases "mirror_current_and_archive st' w")
  have s: "not_older (current_path st) w w'"
    using mirror_not_older[of st w st'] a by simp
  show ?case
    using s Cons.IH[where w = w'] not_older_trans[OF s]
    by (auto simp: a split: sum.split option.split)
qed

lemma backfill_all_lookup_frame:
  assumes "\<not> in_archive q"
    and "\<forall>k. \<not> (q \<noteq> [] \<and> butlast q = OLD_INCOMING_DIR @ [k] \<and> is_png (last q))"
  shows "map_of (files (snd (backfill_all sts archived w))) q = map_of (files w) q"
proof (induction sts arbitrary: archived w)
  case Nil
  show ?case by simp
next
  case (Cons st sts)
  obtain r w' where a: "archive_only_from_old_incoming st w = (r, w')"
    by (cases "archive_only_from_old_incoming st w")
  have s: "map_of (files w') q = map_of (files w) q"
    using backfill_lookup_frame[OF assms(1), of st w] assms(2) a by simp
  show ?case
    using s Cons.IH[where w = w'] by (auto simp: a split: sum.split option.split)
qed

lemma scan_not_older: "not_older (current_path st) w (snd (scan_cmd w))"
proof -
  obtain r w' where a: "mirror_all STATIONS [] w = (r, w')" by (cases "mirror_all STATIONS [] w")
  obtain r2 w2 where b: "backfill_all STATIONS [] w' = (r2, w2)"
    by (cases "backfill_all STATIONS [] w'")
  have m: "not_older (current_path st) w w'"
    using mirror_all_not_older[of st w STATIONS "[]"] a by simp
  have "map_of (files w2) (current_path st) = map_of (files w') (current_path st)"
    using backfill_all_lookup_frame[of "current_path st" STATIONS "[]" w'] b by simp
  then have "not_older (current_path st) w w2"
    using m by (auto intro: not_older_trans not_older_same)
  then show ?thesis using a b m by (auto simp: scan_cmd_def split: sum.split)
qed

lemma exec_not_older: "is_program op \<Longrightarrow> not_older (current_path st) w (exec op w)"
proof (cases op)
  case Init_db
  show ?thesis unfolding Init_db
    by (rule not_older_same) (simp add: init_db_cmd_def split: option.split)
next
  case (Mirror st')
  show ?thesis unfolding Mirror by (simp add: mirror_not_older)
next
  case (Archive src st')
  show ?thesis unfolding Archive by (rule not_older_same) (simp add: archive_file_lookup)
next
  case (Backfill st')
  show ?thesis unfolding Backfill by (rule not_older_same) (simp add: backfill_lookup_frame)
next
  case Scan
  show ?thesis unfolding Scan by (simp add: scan_not_older)
next
  case (External fs ds)
  assume "is_program op"
  then show ?thesis by (simp add: External)
qed

lemma run_not_older: "list_all is_program ops \<Longrightarrow> not_older (current_path st) w (run ops w)"
proof (induction ops arbitrary: w)
  case Nil
  show ?case by (simp add: run_def not_older_same)
next
  case (Cons op ops)
  then have "not_older (current_path st) w (exec op w)"
    and "not_older (current_path st) (exec op w) (run ops (exec op w))"
    by (simp_all add: exec_not_older)
  then show ?case by (simp add: run_def not_older_trans)
qed

text \<open>
  C3. When the incoming file of a station exists and can be read,
  \<open>mirror_current_and_archive\<close> leaves it as the current file, with its bytes and its
  modification time, if and only if nothing was at the current path or the current file
  was strictly older; otherwise the current file is what it was. A comparison that
  fails, one of the two timestamps being unreadable while the current path exists,
  counts as not newer. So the current file of a station, once there, stays there and
  its modification time never decreases, whatever the program is run to do.
\<close>

theorem mirror_promotes_iff_newer:
  "(map_of (files w) (incoming_path st) = Some f \<and> readable f \<longrightarrow>
      map_of (files (snd (mirror_current_and_archive st w))) (current_path st) =
        (if \<not> path_exists w (current_path st) \<or>
            (\<exists>c. map_of (files w) (current_path st) = Some c \<and> mtime c < mtime f)
         then Some f else map_of (files w) (current_path st))) \<and>
   (path_exists w cur \<and> (isl (stat_mtime w src) \<or> isl (stat_mtime w cur)) \<longrightarrow>
      \<not> is_newer_than_current w src cur) \<and>
   (list_all is_program ops \<and> map_of (files w) (current_path st) = Some c \<longrightarrow>
      (\<exists>c'. map_of (files (run ops w)) (current_path st) = Some c' \<and> mtime c \<le> mtime c'))"
proof -
  have a: "map_of (files (snd (mirror_current_and_archive st w))) (current_path st) =
      (if \<not> path_exists w (current_path st) \<or>
          (\<exists>c. map_of (files w) (current_path st) = Some c \<and> mtime c < mtime f)
       then Some f else map_of (files w) (current_path st))"
    if "map_of (files w) (incoming_path st) = Some f" and "readable f"
    using that by (simp add: mirror_current is_newer_iff)
  have b: "\<not> is_newer_than_current w src cur"
    if "path_exists w cur" and "isl (stat_mtime w src) \<or> isl (stat_mtime w cur)"
    using that by (auto simp: is_newer_than_current_def split: sum.splits)
  have c: "\<exists>c'. map_of (files (run ops w)) (current_path st) = Some c' \<and> mtime c \<le> mtime c'"
    if "list_all is_program ops" and "map_of (files w) (current_path st) = Some c"
    using run_not_older[OF that(1), of st w] that(2)
    by (auto simp: not_older_def split: option.splits)
  show ?thesis using a b c by blast
qed

theorem mirror_promotes_iff_newer_witness:
  "map_of (files newer_current_world) (incoming_path simone_piura)
     = Some \<lparr>mtime = 1709337000, content = ''A'', readable = True\<rparr> \<and>
   map_of (files newer_current_world) (current_path simone_piura)
     = Some \<lparr>mtime = 1709337600, content = ''N'', readable = True\<rparr> \<and>
   map_of (files (snd (mirror_current_and_archive simone_piura newer_current_world)))
     (current_path simone_piura)
     = Some \<lparr>mtime = 1709337600, content = ''N'', readable = True\<rparr> \<and>
   path_exists newer_current_world (current_path simone_piura) \<and>
   isl (stat_mtime newer_current_world [''incoming'', ''simone_piura'', ''missing.png'']) \<and>
   \<not> is_newer_than_current newer_current_world
       [''incoming'', ''simone_piura'', ''missing.png''] (current_path simone_piura) \<and>
   list_all is_program [Scan, Mirror simone_piura] \<and>
   (\<exists>c'. map_of (files (run [Scan, Mirror simone_piura] newer_current_world))
           (current_path simone_piura) = Some c' \<and> 1709337600 \<le> mtime c') \<and>
   map_of (files (snd (mirror_current_and_archive simone_piura demo_world)))
     (current_path simone_piura)
     = Some \<lparr>mtime = 1709337000, content = ''A'', readable = True\<rparr>"
proof -
  let ?f = "\<lparr>mtime = 1709337000, content = ''A'', readable = True\<rparr>"
  let ?c = "\<lparr>mtime = 1709337600, content = ''N'', readable = True\<rparr>"
  let ?m = "[''incoming'', ''simone_piura'', ''missing.png'']"
  have a: "map_of (files newer_current_world) (incoming_path simone_piura) = Some ?f"
    by (simp add: newer_current_world_def demo_world_def incoming_path_def simone_piura_def
        INCOMING_DIR_def)
  have c: "map_of (files newer_current_world) (current_path simone_piura) = Some ?c"
    by (simp add: newer_current_world_def demo_world_def current_path_def simone_piura_def
        CURRENT_DIR_def)
  have a0: "map_of (files demo_world) (incoming_path simone_piura) = Some ?f"
    by (simp add: demo_world_def incoming_path_def simone_piura_def INCOMING_DIR_def)
  have c0: "\<not> path_exists demo_world (current_path simone_piura)"
    by (simp add: path_exists_def demo_world_def current_path_def simone_piura_def
        CURRENT_DIR_def)
  have e: "path_exists newer_current_world (current_path simone_piura)"
    by (simp add: path_exists_def c)
  have s: "isl (stat_mtime newer_current_world ?m)"
    by (simp add: stat_mtime_def newer_current_world_def demo_world_def)
  have p: "list_all is_program [Scan, Mirror simone_piura]" by simp
  note t = mirror_promotes_iff_newer[of newer_current_world simone_piura ?f
      "current_path simone_piura" ?m "[Scan, Mirror simone_piura]" ?c]
  note t0 = mirror_promotes_iff_newer[of demo_world simone_piura ?f, THEN conjunct1]
  have 1: "map_of (files (snd (mirror_current_and_archive simone_piura newer_current_world)))
      (current_path simone_piura) = Some ?c"
    using t[THEN conjunct1] a c e by simp
  have 2: "\<not> is_newer_than_current newer_current_world ?m (current_path simone_piura)"
    using t[THEN conjunct2, THEN conjunct1] e s by blast
  have 3: "\<exists>c'. map_of (files (run [Scan, Mirror simone_piura] newer_current_world))
      (current_path simone_piura) = Some c' \<and> 1709337600 \<le> mtime c'"
    using t[THEN conjunct2, THEN conjunct2] p c by simp
  have 4: "map_of (files (snd (mirror_current_and_archive simone_piura demo_world)))
      (current_path simone_piura) = Some ?f"
    using t0 a0 c0 by simp
  show ?thesis using a c 1 e s 2 p 3 4 by blast
qed

end
